theory Spec2Isabelle
  imports Complex_Main "HOL-Library.Word"
begin

section \<open>Data model of the renderer\<close>

text \<open>
  The model follows \<^verbatim>\<open>Renderer.cpp\<close> and the class declaration of \<^verbatim>\<open>Renderer\<close>.
  Unsigned 32-bit members are \<open>32 word\<close>, so \<open>+\<close> and \<open>-\<close> wrap as in C++.
  Vulkan handles are opaque 64-bit values and \<open>0\<close> is the null handle.
\<close>

type_synonym u32 = "32 word"
type_synonym handle = "64 word"

abbreviation VK_NULL_HANDLE :: handle where
  "VK_NULL_HANDLE \<equiv> 0"

text \<open>
  Result codes of the Vulkan header (the header is not part of the sources): the codes
  the renderer compares against, the common error codes, and one constructor for every
  other numeric code.
\<close>

datatype VkResult =
    VK_SUCCESS
  | VK_NOT_READY
  | VK_TIMEOUT
  | VK_INCOMPLETE
  | VK_SUBOPTIMAL_KHR
  | VK_ERROR_OUT_OF_HOST_MEMORY
  | VK_ERROR_OUT_OF_DEVICE_MEMORY
  | VK_ERROR_DEVICE_LOST
  | VK_ERROR_SURFACE_LOST_KHR
  | VK_ERROR_OUT_OF_DATE_KHR
  | VK_RESULT_OTHER int

text \<open>The nine values of \<^verbatim>\<open>VkSurfaceTransformFlagBitsKHR\<close>.\<close>

datatype VkSurfaceTransform =
    IDENTITY
  | ROTATE_90
  | ROTATE_180
  | ROTATE_270
  | HORIZONTAL_MIRROR
  | HORIZONTAL_MIRROR_ROTATE_90
  | HORIZONTAL_MIRROR_ROTATE_180
  | HORIZONTAL_MIRROR_ROTATE_270
  | INHERIT

text \<open>\<^verbatim>\<open>Renderer::Texture\<close>: only the two members the frame loop reads.\<close>

record Texture =
  width :: u32
  height :: u32

text \<open>
  The members of \<^verbatim>\<open>Renderer\<close> that the presentation loop reads or writes. The
  synchronisation vectors and the command buffers hold \<open>kInflight\<close> entries from
  initialisation on and are indexed by \<open>mFrameCount % kInflight\<close> only; they are left out.
\<close>

record Renderer =
  mSurfaceWidth :: u32
  mSurfaceHeight :: u32
  mImageWidth :: u32
  mImageHeight :: u32
  mPreTransform :: VkSurfaceTransform
  mFrameCount :: u32
  mSwapchain :: handle
  mImages :: "handle list"
  mImageViews :: "handle list"
  mFramebuffers :: "handle list"
  mFireRecreateSwapchain :: bool
  mPreRotationLatency :: u32
  mRetireFrame :: u32
  mOldSwapchain :: handle
  mOldImages :: "handle list"
  mOldImageViews :: "handle list"
  mOldFramebuffers :: "handle list"
  mTextures :: "Texture list"

definition kInflight :: u32 where
  "kInflight = 2"

definition kPreRotationLatency :: u32 where
  "kPreRotationLatency = 30"

definition kTextureCount :: nat where
  "kTextureCount = 1"

subsection \<open>The device: answers, failures and effects\<close>

text \<open>
  Every device call site runs at most once per frame, so the device's behaviour during
  one frame is a record of its answers, one per call site.
\<close>

record caps_reply =
  capsResult :: VkResult
  currentExtentWidth :: u32
  currentExtentHeight :: u32
  currentTransform :: VkSurfaceTransform

record swapchain_reply =
  surfaceCaps :: caps_reply
  createSwapchainResult :: VkResult
  createdSwapchain :: handle
  imageCountResult :: VkResult
  swapchainImageCount :: nat
  imagesResult :: VkResult
  swapchainImages :: "handle list"

record frame_reply =
  waitForFencesResult :: VkResult
  resetFencesResult :: VkResult
  acquireResult :: VkResult
  acquiredImageIndex :: nat
  createImageViewResult :: VkResult
  createdImageView :: handle
  createFramebufferResult :: VkResult
  createdFramebuffer :: handle
  beginCommandBufferResult :: VkResult
  endCommandBufferResult :: VkResult
  queueSubmitResult :: VkResult
  queuePresentResult :: VkResult
  rotationCaps :: caps_reply
  recreateReply :: swapchain_reply

datatype device_call =
    WaitForFences
  | ResetFences
  | AcquireNextImageKHR
  | CreateImageView
  | CreateFramebuffer
  | BeginCommandBuffer
  | EndCommandBuffer
  | QueueSubmit
  | QueuePresentKHR
  | GetPhysicalDeviceSurfaceCapabilitiesKHR
  | CreateSwapchainKHR
  | GetSwapchainImagesKHR

text \<open>
  \<open>AssertFailed c\<close>: the \<^verbatim>\<open>ASSERT\<close> macro of \<^verbatim>\<open>Utils.h\<close> aborts the process at the
  check of call \<open>c\<close>. \<open>IndexOutOfRange\<close>: a \<^verbatim>\<open>std::vector\<close> is read or written past
  its end, which C++ leaves undefined.
\<close>

datatype failure = AssertFailed device_call | IndexOutOfRange

record swapchain_create_info =
  imageExtentWidth :: u32
  imageExtentHeight :: u32
  preTransform :: VkSurfaceTransform
  oldSwapchain :: handle

type_synonym mat2 = "(real \<times> real) \<times> (real \<times> real)"

text \<open>
  \<^verbatim>\<open>PushConstantBlock\<close>. The \<open>mvp\<close> member is the diagonal matrix
  \<open>diag (scaleX, scaleY, 1, 1)\<close>; the model keeps \<open>(scaleX, scaleY)\<close>. The \<open>preRotate\<close>
  member is a column-major 2x2 matrix: \<open>((m00, m01), (m10, m11))\<close> are its two columns.
\<close>

record PushConstantBlock =
  mvp :: "(real \<times> real) option"
  preRotate :: mat2

datatype event =
    CreatedSwapchain swapchain_create_info handle
  | CreatedImageView nat handle
  | CreatedFramebuffer nat handle
  | PushedConstants nat PushConstantBlock
  | DestroyedFramebuffer handle
  | DestroyedImageView handle
  | DestroyedSwapchain handle

section \<open>Operations\<close>

subsection \<open>Swapchain creation\<close>

text \<open>\<^verbatim>\<open>std::vector::resize (n, v)\<close>: truncate, or pad with \<open>v\<close>.\<close>

definition resize :: "'a list \<Rightarrow> nat \<Rightarrow> 'a \<Rightarrow> 'a list" where
  "resize xs n v = take n xs @ replicate (n - length xs) v"

text \<open>
  \<^verbatim>\<open>Renderer::createSwapchain\<close>. The second \<^verbatim>\<open>GetSwapchainImagesKHR\<close> call writes at
  most \<open>imageCount\<close> handles into \<open>mImages\<close> and stores the number written back into
  \<open>imageCount\<close>.
\<close>

definition createSwapchain ::
  "Renderer \<Rightarrow> handle \<Rightarrow> swapchain_reply \<Rightarrow> failure + (event list \<times> Renderer)" where
  "createSwapchain s oldSwapchainArg r =
    (let surfaceCapabilities = surfaceCaps r in
     if capsResult surfaceCapabilities \<noteq> VK_SUCCESS
     then Inl (AssertFailed GetPhysicalDeviceSurfaceCapabilitiesKHR)
     else
       let s1 = s\<lparr>mImageWidth := currentExtentWidth surfaceCapabilities,
                  mSurfaceWidth := currentExtentWidth surfaceCapabilities,
                  mImageHeight := currentExtentHeight surfaceCapabilities,
                  mSurfaceHeight := currentExtentHeight surfaceCapabilities,
                  mPreTransform := currentTransform surfaceCapabilities\<rparr>;
           s2 = (if mPreTransform s1 = ROTATE_90 \<or> mPreTransform s1 = ROTATE_270
                 then s1\<lparr>mImageWidth := mImageHeight s1, mImageHeight := mImageWidth s1\<rparr>
                 else s1);
           swapchainCreateInfo =
             \<lparr>imageExtentWidth = mImageWidth s2, imageExtentHeight = mImageHeight s2,
              preTransform = mPreTransform s2, oldSwapchain = oldSwapchainArg\<rparr>
       in
       if createSwapchainResult r \<noteq> VK_SUCCESS then Inl (AssertFailed CreateSwapchainKHR)
       else
         let s3 = s2\<lparr>mSwapchain := createdSwapchain r\<rparr> in
         if imageCountResult r \<noteq> VK_SUCCESS then Inl (AssertFailed GetSwapchainImagesKHR)
         else
           let imageCount = swapchainImageCount r;
               s4 = s3\<lparr>mImages := resize (mImages s3) imageCount VK_NULL_HANDLE\<rparr>
           in
           if imagesResult r \<noteq> VK_SUCCESS then Inl (AssertFailed GetSwapchainImagesKHR)
           else
             let written = take imageCount (swapchainImages r);
                 s5 = s4\<lparr>mImages := written @ drop (length written) (mImages s4)\<rparr>;
                 imageCount2 = length written;
                 s6 = s5\<lparr>mImageViews := resize (mImageViews s5) imageCount2 VK_NULL_HANDLE,
                          mFramebuffers := resize (mFramebuffers s5) imageCount2 VK_NULL_HANDLE\<rparr>
             in Inr ([CreatedSwapchain swapchainCreateInfo (createdSwapchain r)], s6))"

subsection \<open>Lazy image views and framebuffers\<close>

text \<open>\<^verbatim>\<open>Renderer::createFramebuffer\<close>.\<close>

definition createFramebuffer ::
  "Renderer \<Rightarrow> nat \<Rightarrow> frame_reply \<Rightarrow> failure + (event list \<times> Renderer)" where
  "createFramebuffer s index r =
    (if \<not> index < length (mImages s) \<or> \<not> index < length (mImageViews s)
     then Inl IndexOutOfRange
     else if createImageViewResult r \<noteq> VK_SUCCESS then Inl (AssertFailed CreateImageView)
     else
       let s1 = s\<lparr>mImageViews := (mImageViews s)[index := createdImageView r]\<rparr> in
       if \<not> index < length (mFramebuffers s1) then Inl IndexOutOfRange
       else if createFramebufferResult r \<noteq> VK_SUCCESS
       then Inl (AssertFailed CreateFramebuffer)
       else Inr ([CreatedImageView index (createdImageView r),
                  CreatedFramebuffer index (createdFramebuffer r)],
                 s1\<lparr>mFramebuffers := (mFramebuffers s1)[index := createdFramebuffer r]\<rparr>))"

subsection \<open>The push constants\<close>

text \<open>
  Lines 1328 to 1334 of \<^verbatim>\<open>Renderer::recordCommandBuffer\<close>. The source computes in
  \<^verbatim>\<open>float\<close>; the model computes in the reals, so rounding is not represented. When a
  dimension is zero the \<^verbatim>\<open>float\<close> computation passes through an infinity or a NaN,
  which the reals do not have: the model answers \<open>None\<close> there.
\<close>

definition mvpScale :: "u32 \<Rightarrow> u32 \<Rightarrow> u32 \<Rightarrow> u32 \<Rightarrow> (real \<times> real) option" where
  "mvpScale surfaceWidth surfaceHeight textureWidth textureHeight =
    (if surfaceWidth = 0 \<or> surfaceHeight = 0 \<or> textureWidth = 0 \<or> textureHeight = 0
     then None
     else
       let scaleW = real (unat surfaceWidth) / real (unat textureWidth);
           scaleH = real (unat surfaceHeight) / real (unat textureHeight);
           minimalScale = (if scaleW < scaleH then scaleW else scaleH);
           scaleX = minimalScale / scaleW;
           scaleY = minimalScale / scaleH
       in Some (scaleX, scaleY))"

text \<open>
  The \<^verbatim>\<open>switch\<close> of lines 1337 to 1350: the angle in degrees handed to
  \<^verbatim>\<open>glm::radians\<close>; every unmatched transform leaves \<open>radians\<close> at \<open>0\<close>.
\<close>

definition preRotationDegrees :: "VkSurfaceTransform \<Rightarrow> real" where
  "preRotationDegrees t =
    (case t of
       ROTATE_90 \<Rightarrow> 90
     | ROTATE_180 \<Rightarrow> 180
     | ROTATE_270 \<Rightarrow> 270
     | _ \<Rightarrow> 0)"

text \<open>
  Modelled from the spec: \<^verbatim>\<open>glm::radians\<close> belongs to the GLM submodule, which is
  missing from the sources. It converts degrees to radians.
\<close>

definition glm_radians :: "real \<Rightarrow> real" where
  "glm_radians degrees = degrees * pi / 180"

text \<open>
  Modelled from the spec: \<^verbatim>\<open>glm::rotate\<close> belongs to the GLM submodule, which is
  missing from the sources. The source rotates the unit matrix about the axis
  \<open>(0, 0, 1)\<close> and converts the result to \<^verbatim>\<open>glm::mat2\<close>, which keeps the upper left
  2x2 block: the plane rotation by the given angle, here in columns.
\<close>

definition glm_rotate_z :: "real \<Rightarrow> mat2" where
  "glm_rotate_z angle = ((cos angle, sin angle), (- sin angle, cos angle))"

definition preRotateMatrix :: "VkSurfaceTransform \<Rightarrow> mat2" where
  "preRotateMatrix t = glm_rotate_z (glm_radians (preRotationDegrees t))"

text \<open>
  \<^verbatim>\<open>Renderer::recordCommandBuffer\<close>: the two checked calls, the reads of
  \<open>mFramebuffers[imageIndex]\<close> and \<open>mTextures[0]\<close>, and the block handed to
  \<^verbatim>\<open>CmdPushConstants\<close> for the command buffer of slot \<open>frameIndex\<close>.
\<close>

definition recordCommandBuffer ::
  "Renderer \<Rightarrow> nat \<Rightarrow> nat \<Rightarrow> frame_reply \<Rightarrow> failure + event list" where
  "recordCommandBuffer s frameIndex imageIndex r =
    (if beginCommandBufferResult r \<noteq> VK_SUCCESS then Inl (AssertFailed BeginCommandBuffer)
     else if \<not> imageIndex < length (mFramebuffers s) then Inl IndexOutOfRange
     else if mTextures s = [] then Inl IndexOutOfRange
     else
       let pushConstantBlock =
             \<lparr>mvp = mvpScale (mSurfaceWidth s) (mSurfaceHeight s)
                      (width (mTextures s ! 0)) (height (mTextures s ! 0)),
              preRotate = preRotateMatrix (mPreTransform s)\<rparr>
       in
       if endCommandBufferResult r \<noteq> VK_SUCCESS then Inl (AssertFailed EndCommandBuffer)
       else Inr [PushedConstants frameIndex pushConstantBlock])"

subsection \<open>Retiring the old swapchain\<close>

text \<open>\<^verbatim>\<open>Renderer::destroyOldSwapchain\<close>.\<close>

definition destroyOldSwapchain :: "Renderer \<Rightarrow> event list \<times> Renderer" where
  "destroyOldSwapchain s =
    (map DestroyedFramebuffer (mOldFramebuffers s) @
     map DestroyedImageView (mOldImageViews s) @
     [DestroyedSwapchain (mOldSwapchain s)],
     s\<lparr>mOldFramebuffers := [], mOldImageViews := [], mOldImages := [],
       mOldSwapchain := VK_NULL_HANDLE\<rparr>)"

text \<open>Lines 100 to 102 of \<^verbatim>\<open>Renderer::drawFrame\<close>.\<close>

definition retireCheck :: "Renderer \<Rightarrow> event list \<times> Renderer" where
  "retireCheck s =
    (if mOldSwapchain s \<noteq> VK_NULL_HANDLE \<and> mRetireFrame s = mFrameCount s
     then destroyOldSwapchain s
     else ([], s))"

subsection \<open>The swap decision\<close>

text \<open>
  The \<^verbatim>\<open>switch\<close> of \<^verbatim>\<open>Renderer::is180Rotation\<close>, on the transform the surface
  reports now and the transform of the current swapchain.
\<close>

fun is180 :: "VkSurfaceTransform \<Rightarrow> VkSurfaceTransform \<Rightarrow> bool" where
  "is180 IDENTITY pre = (pre = ROTATE_180)"
| "is180 ROTATE_90 pre = (pre = ROTATE_270)"
| "is180 ROTATE_180 pre = (pre = IDENTITY)"
| "is180 ROTATE_270 pre = (pre = ROTATE_90)"
| "is180 _ pre = False"

text \<open>\<^verbatim>\<open>Renderer::is180Rotation\<close>.\<close>

definition is180Rotation :: "Renderer \<Rightarrow> caps_reply \<Rightarrow> failure + bool" where
  "is180Rotation s surfaceCapabilities =
    (if capsResult surfaceCapabilities \<noteq> VK_SUCCESS
     then Inl (AssertFailed GetPhysicalDeviceSurfaceCapabilitiesKHR)
     else Inr (is180 (currentTransform surfaceCapabilities) (mPreTransform s)))"

text \<open>
  Lines 110 to 123 of \<^verbatim>\<open>Renderer::drawFrame\<close>: the body of the inner \<^verbatim>\<open>if\<close>,
  which exchanges the current and the old members and builds the new swapchain.
\<close>

definition recreateSwapchain ::
  "Renderer \<Rightarrow> swapchain_reply \<Rightarrow> failure + (event list \<times> Renderer)" where
  "recreateSwapchain s r =
    (let s1 = s\<lparr>mPreRotationLatency := kPreRotationLatency,
                mFireRecreateSwapchain := False\<rparr>;
         s2 = s1\<lparr>mSwapchain := mOldSwapchain s1, mOldSwapchain := mSwapchain s1,
                 mImages := mOldImages s1, mOldImages := mImages s1,
                 mImageViews := mOldImageViews s1, mOldImageViews := mImageViews s1,
                 mFramebuffers := mOldFramebuffers s1, mOldFramebuffers := mFramebuffers s1\<rparr>;
         s3 = s2\<lparr>mRetireFrame := mFrameCount s2 + kInflight\<rparr>
     in createSwapchain s3 (mOldSwapchain s3) r)"

text \<open>
  Lines 106 to 127 of \<^verbatim>\<open>Renderer::drawFrame\<close>. The condition
  \<^verbatim>\<open>is180Rotation() || mFireRecreateSwapchain || !(--mPreRotationLatency)\<close> evaluates from
  the left and stops at the first true operand, so the counter is decremented only when
  the first two operands are false.
\<close>

definition swapCheck ::
  "Renderer \<Rightarrow> VkResult \<Rightarrow> frame_reply \<Rightarrow> failure + (event list \<times> Renderer)" where
  "swapCheck s ret r =
    (if ret = VK_SUBOPTIMAL_KHR \<or> mFireRecreateSwapchain s then
       (case is180Rotation s (rotationCaps r) of
          Inl e \<Rightarrow> Inl e
        | Inr rotated \<Rightarrow>
            if rotated \<or> mFireRecreateSwapchain s then recreateSwapchain s (recreateReply r)
            else
              let s1 = s\<lparr>mPreRotationLatency := mPreRotationLatency s - 1\<rparr> in
              if mPreRotationLatency s1 = 0 then recreateSwapchain s1 (recreateReply r)
              else Inr ([], s1))
     else if ret \<noteq> VK_SUCCESS then Inl (AssertFailed QueuePresentKHR)
     else Inr ([], s))"

subsection \<open>One frame\<close>

text \<open>
  Lines 54 to 97 of \<^verbatim>\<open>Renderer::drawFrame\<close>: wait, reset, acquire, materialise the
  framebuffer of the acquired image, record, submit and present. The result of the
  present call is returned unchecked, as the source keeps it in \<open>ret\<close>.
\<close>

definition renderAndPresent ::
  "Renderer \<Rightarrow> frame_reply \<Rightarrow> failure + (event list \<times> Renderer \<times> VkResult)" where
  "renderAndPresent s r =
    (let frameIndex = unat (mFrameCount s mod kInflight) in
     if waitForFencesResult r \<noteq> VK_SUCCESS then Inl (AssertFailed WaitForFences)
     else if resetFencesResult r \<noteq> VK_SUCCESS then Inl (AssertFailed ResetFences)
     else if acquireResult r \<noteq> VK_SUCCESS then Inl (AssertFailed AcquireNextImageKHR)
     else
       let imageIndex = acquiredImageIndex r in
       if \<not> imageIndex < length (mFramebuffers s) then Inl IndexOutOfRange
       else
         (case (if mFramebuffers s ! imageIndex = VK_NULL_HANDLE
                then createFramebuffer s imageIndex r
                else Inr ([], s)) of
            Inl e \<Rightarrow> Inl e
          | Inr (ev1, s1) \<Rightarrow>
              (case recordCommandBuffer s1 frameIndex imageIndex r of
                 Inl e \<Rightarrow> Inl e
               | Inr ev2 \<Rightarrow>
                   if queueSubmitResult r \<noteq> VK_SUCCESS then Inl (AssertFailed QueueSubmit)
                   else Inr (ev1 @ ev2, s1, queuePresentResult r))))"

text \<open>\<^verbatim>\<open>Renderer::drawFrame\<close>: the events of the frame, in order, and the new state.\<close>

definition drawFrame ::
  "Renderer \<Rightarrow> frame_reply \<Rightarrow> failure + (event list \<times> Renderer)" where
  "drawFrame s r =
    (case renderAndPresent s r of
       Inl e \<Rightarrow> Inl e
     | Inr (ev1, s1, ret) \<Rightarrow>
         (case retireCheck s1 of
            (ev2, s2) \<Rightarrow>
              (case swapCheck s2 ret r of
                 Inl e \<Rightarrow> Inl e
               | Inr (ev3, s3) \<Rightarrow>
                   Inr (ev1 @ ev2 @ ev3, s3\<lparr>mFrameCount := mFrameCount s3 + 1\<rparr>))))"

text \<open>\<^verbatim>\<open>Renderer::updateSurface\<close>.\<close>

definition updateSurface :: "Renderer \<Rightarrow> u32 \<Rightarrow> u32 \<Rightarrow> Renderer" where
  "updateSurface s w h =
    (if mSurfaceWidth s \<noteq> w \<or> mSurfaceHeight s \<noteq> h
     then s\<lparr>mFireRecreateSwapchain := True\<rparr>
     else s)"

subsection \<open>The engine around the renderer\<close>

record Engine =
  mRenderer :: Renderer
  mIsRendererReady :: bool

text \<open>\<^verbatim>\<open>Engine::onWindowResized\<close>; the lock it takes is not represented.\<close>

definition onWindowResized :: "Engine \<Rightarrow> u32 \<Rightarrow> u32 \<Rightarrow> Engine" where
  "onWindowResized e w h =
    (if mIsRendererReady e then e\<lparr>mRenderer := updateSurface (mRenderer e) w h\<rparr> else e)"

text \<open>\<^verbatim>\<open>Engine::drawFrame\<close>: nothing happens before the renderer is ready.\<close>

definition engineDrawFrame :: "Engine \<Rightarrow> frame_reply \<Rightarrow> failure + (event list \<times> Engine)" where
  "engineDrawFrame e r =
    (if mIsRendererReady e
     then (case drawFrame (mRenderer e) r of
             Inl x \<Rightarrow> Inl x
           | Inr (ev, s) \<Rightarrow> Inr (ev, e\<lparr>mRenderer := s\<rparr>))
     else Inr ([], e))"

text \<open>
  The frame callback runs \<^verbatim>\<open>drawFrame\<close> once per display frame; a run of frames is the
  list of the device's answers, and it stops at the first abort.
\<close>

fun runFrames ::
  "Renderer \<Rightarrow> frame_reply list \<Rightarrow> failure + (event list list \<times> Renderer)" where
  "runFrames s [] = Inr ([], s)"
| "runFrames s (r # rs) =
    (case drawFrame s r of
       Inl e \<Rightarrow> Inl e
     | Inr (ev, s1) \<Rightarrow>
         (case runFrames s1 rs of
            Inl e \<Rightarrow> Inl e
          | Inr (evs, s2) \<Rightarrow> Inr (ev # evs, s2)))"

subsection \<open>Initialisation\<close>

text \<open>
  The default member initialisers of \<^verbatim>\<open>Renderer\<close>, and the part of
  \<^verbatim>\<open>Renderer::initialize\<close> that writes modelled members:
  \<^verbatim>\<open>createSwapchain(VK_NULL_HANDLE)\<close>, and \<^verbatim>\<open>createTextures\<close>, which fills
  \<open>mTextures\<close> with the \<open>kTextureCount\<close> decoded images.
\<close>

definition defaultRenderer :: Renderer where
  "defaultRenderer =
    \<lparr>mSurfaceWidth = 0, mSurfaceHeight = 0, mImageWidth = 0, mImageHeight = 0,
     mPreTransform = IDENTITY, mFrameCount = 0, mSwapchain = VK_NULL_HANDLE,
     mImages = [], mImageViews = [], mFramebuffers = [],
     mFireRecreateSwapchain = False, mPreRotationLatency = kPreRotationLatency,
     mRetireFrame = 0, mOldSwapchain = VK_NULL_HANDLE,
     mOldImages = [], mOldImageViews = [], mOldFramebuffers = [], mTextures = []\<rparr>"

definition initialize ::
  "swapchain_reply \<Rightarrow> Texture \<Rightarrow> failure + (event list \<times> Renderer)" where
  "initialize r tex =
    (case createSwapchain defaultRenderer VK_NULL_HANDLE r of
       Inl e \<Rightarrow> Inl e
     | Inr (ev, s) \<Rightarrow> Inr (ev, s\<lparr>mTextures := replicate kTextureCount tex\<rparr>))"

text \<open>
  The states the renderer can be in between two calls from the host: after
  initialisation, after a frame that did not abort, after a resize notification.
\<close>

inductive reachable :: "Renderer \<Rightarrow> bool" where
  reach_init: "initialize r tex = Inr (ev, s) \<Longrightarrow> reachable s"
| reach_frame: "reachable s \<Longrightarrow> drawFrame s r = Inr (ev, s') \<Longrightarrow> reachable s'"
| reach_resize: "reachable s \<Longrightarrow> reachable (updateSurface s w h)"

section \<open>Vocabulary of the properties\<close>

text \<open>A swap executes exactly when the frame creates a swapchain.\<close>

fun isSwap :: "event \<Rightarrow> bool" where
  "isSwap (CreatedSwapchain info h) = True"
| "isSwap _ = False"

text \<open>Resource teardown: the three destroy calls of \<^verbatim>\<open>destroyOldSwapchain\<close>.\<close>

fun isDestroy :: "event \<Rightarrow> bool" where
  "isDestroy (DestroyedFramebuffer h) = True"
| "isDestroy (DestroyedImageView h) = True"
| "isDestroy (DestroyedSwapchain h) = True"
| "isDestroy _ = False"

text \<open>
  Two transforms half a turn apart, as the specification lists them: Identity against
  Rotate180 and Rotate90 against Rotate270, in either direction.
\<close>

definition differsBy180 :: "VkSurfaceTransform \<Rightarrow> VkSurfaceTransform \<Rightarrow> bool" where
  "differsBy180 reported recorded =
    ((reported = IDENTITY \<and> recorded = ROTATE_180) \<or>
     (reported = ROTATE_180 \<and> recorded = IDENTITY) \<or>
     (reported = ROTATE_90 \<and> recorded = ROTATE_270) \<or>
     (reported = ROTATE_270 \<and> recorded = ROTATE_90))"


subsection \<open>A concrete device\<close>

text \<open>
  A portrait surface of 1080 by 1920 whose swapchains have one image, and a texture of
  512 by 256. \<open>demoFrame ret t cur new\<close> is a frame in which every call succeeds, the
  present call answers \<open>ret\<close>, the surface reports transform \<open>t\<close>, image 0 is acquired,
  and a swapchain built in this frame gets the handle \<open>new\<close>.
\<close>

definition demoCaps :: "VkSurfaceTransform \<Rightarrow> caps_reply" where
  "demoCaps t =
    \<lparr>capsResult = VK_SUCCESS, currentExtentWidth = 1080, currentExtentHeight = 1920,
     currentTransform = t\<rparr>"

definition demoSwapchain :: "VkSurfaceTransform \<Rightarrow> handle \<Rightarrow> swapchain_reply" where
  "demoSwapchain t new =
    \<lparr>surfaceCaps = demoCaps t, createSwapchainResult = VK_SUCCESS, createdSwapchain = new,
     imageCountResult = VK_SUCCESS, swapchainImageCount = 1, imagesResult = VK_SUCCESS,
     swapchainImages = [new + 1]\<rparr>"

definition demoFrame ::
  "VkResult \<Rightarrow> VkSurfaceTransform \<Rightarrow> handle \<Rightarrow> handle \<Rightarrow> frame_reply" where
  "demoFrame ret t cur new =
    \<lparr>waitForFencesResult = VK_SUCCESS, resetFencesResult = VK_SUCCESS,
     acquireResult = VK_SUCCESS, acquiredImageIndex = 0,
     createImageViewResult = VK_SUCCESS, createdImageView = cur + 2,
     createFramebufferResult = VK_SUCCESS, createdFramebuffer = cur + 3,
     beginCommandBufferResult = VK_SUCCESS, endCommandBufferResult = VK_SUCCESS,
     queueSubmitResult = VK_SUCCESS, queuePresentResult = ret,
     rotationCaps = demoCaps t, recreateReply = demoSwapchain t new\<rparr>"

definition demoTexture :: Texture where
  "demoTexture = \<lparr>width = 512, height = 256\<rparr>"

definition demoPush :: "VkSurfaceTransform \<Rightarrow> PushConstantBlock" where
  "demoPush t = \<lparr>mvp = mvpScale 1080 1920 512 256, preRotate = preRotateMatrix t\<rparr>"

text \<open>The state after \<open>initialize (demoSwapchain IDENTITY 100) demoTexture\<close>.\<close>

definition demoStart :: Renderer where
  "demoStart =
    \<lparr>mSurfaceWidth = 1080, mSurfaceHeight = 1920, mImageWidth = 1080, mImageHeight = 1920,
     mPreTransform = IDENTITY, mFrameCount = 0, mSwapchain = 100,
     mImages = [101], mImageViews = [VK_NULL_HANDLE], mFramebuffers = [VK_NULL_HANDLE],
     mFireRecreateSwapchain = False, mPreRotationLatency = 30,
     mRetireFrame = 0, mOldSwapchain = VK_NULL_HANDLE,
     mOldImages = [], mOldImageViews = [], mOldFramebuffers = [],
     mTextures = [demoTexture]\<rparr>"

text \<open>Frame 0 sees the surface turned upside down: a half turn.\<close>

definition flipFrame :: frame_reply where
  "flipFrame = demoFrame VK_SUBOPTIMAL_KHR ROTATE_180 100 200"

definition flipEvents :: "event list" where
  "flipEvents =
    [CreatedImageView 0 102, CreatedFramebuffer 0 103, PushedConstants 0 (demoPush IDENTITY),
     CreatedSwapchain
       \<lparr>imageExtentWidth = 1080, imageExtentHeight = 1920, preTransform = ROTATE_180,
        oldSwapchain = 100\<rparr> 200]"

text \<open>The state after frame 0: swapchain 100 is retiring and is due at frame 2.\<close>

definition afterFlip :: Renderer where
  "afterFlip =
    \<lparr>mSurfaceWidth = 1080, mSurfaceHeight = 1920, mImageWidth = 1080, mImageHeight = 1920,
     mPreTransform = ROTATE_180, mFrameCount = 1, mSwapchain = 200,
     mImages = [201], mImageViews = [VK_NULL_HANDLE], mFramebuffers = [VK_NULL_HANDLE],
     mFireRecreateSwapchain = False, mPreRotationLatency = 30,
     mRetireFrame = 2, mOldSwapchain = 100,
     mOldImages = [101], mOldImageViews = [102], mOldFramebuffers = [103],
     mTextures = [demoTexture]\<rparr>"

text \<open>Frames that follow the flip: a quarter turn, the flip undone, and a quiet frame.\<close>

definition quarterTurnFrame :: frame_reply where
  "quarterTurnFrame = demoFrame VK_SUBOPTIMAL_KHR ROTATE_90 200 300"



text \<open>Frames from the start: a quarter turn that persists, and a frame without a signal.\<close>

definition softFrame :: frame_reply where
  "softFrame = demoFrame VK_SUBOPTIMAL_KHR ROTATE_90 100 200"

definition calmFrame :: frame_reply where
  "calmFrame = demoFrame VK_SUCCESS ROTATE_90 100 200"

text \<open>The state after 29 \<open>softFrame\<close>s from \<open>demoStart\<close>: the countdown stands at 1.\<close>

definition countdownEnd :: Renderer where
  "countdownEnd =
    \<lparr>mSurfaceWidth = 1080, mSurfaceHeight = 1920, mImageWidth = 1080, mImageHeight = 1920,
     mPreTransform = IDENTITY, mFrameCount = 29, mSwapchain = 100,
     mImages = [101], mImageViews = [102], mFramebuffers = [103],
     mFireRecreateSwapchain = False, mPreRotationLatency = 1,
     mRetireFrame = 0, mOldSwapchain = VK_NULL_HANDLE,
     mOldImages = [], mOldImageViews = [], mOldFramebuffers = [],
     mTextures = [demoTexture]\<rparr>"

text \<open>A device that is lost while a resize notification is pending.\<close>

definition lostFrame :: frame_reply where
  "lostFrame = demoFrame VK_ERROR_DEVICE_LOST IDENTITY 100 200"

text \<open>The state two quarter-turn frames after the flip: swapchain 100 is gone.\<close>

definition afterQuarterTurns :: Renderer where
  "afterQuarterTurns =
    \<lparr>mSurfaceWidth = 1080, mSurfaceHeight = 1920, mImageWidth = 1080, mImageHeight = 1920,
     mPreTransform = ROTATE_180, mFrameCount = 3, mSwapchain = 200,
     mImages = [201], mImageViews = [202], mFramebuffers = [203],
     mFireRecreateSwapchain = False, mPreRotationLatency = 28,
     mRetireFrame = 2, mOldSwapchain = VK_NULL_HANDLE,
     mOldImages = [], mOldImageViews = [], mOldFramebuffers = [],
     mTextures = [demoTexture]\<rparr>"





text \<open>The 30th soft frame in a row: the countdown fires.\<close>

definition countdownEvents :: "event list" where
  "countdownEvents =
    [PushedConstants 1 (demoPush IDENTITY),
     CreatedSwapchain
       \<lparr>imageExtentWidth = 1920, imageExtentHeight = 1080, preTransform = ROTATE_90,
        oldSwapchain = 100\<rparr> 200]"

definition afterCountdown :: Renderer where
  "afterCountdown =
    \<lparr>mSurfaceWidth = 1080, mSurfaceHeight = 1920, mImageWidth = 1920, mImageHeight = 1080,
     mPreTransform = ROTATE_90, mFrameCount = 30, mSwapchain = 200,
     mImages = [201], mImageViews = [VK_NULL_HANDLE], mFramebuffers = [VK_NULL_HANDLE],
     mFireRecreateSwapchain = False, mPreRotationLatency = 30,
     mRetireFrame = 31, mOldSwapchain = 100,
     mOldImages = [101], mOldImageViews = [102], mOldFramebuffers = [103],
     mTextures = [demoTexture]\<rparr>"

text \<open>One soft frame from the start, then a resize notification to 800 by 600.\<close>

definition afterSoft :: Renderer where
  "afterSoft =
    demoStart\<lparr>mFrameCount := 1, mImageViews := [102], mFramebuffers := [103],
      mPreRotationLatency := 29\<rparr>"

definition resizePending :: Renderer where
  "resizePending = updateSurface afterSoft 800 600"

definition afterResizeSwap :: Renderer where
  "afterResizeSwap = afterCountdown\<lparr>mFrameCount := 2, mRetireFrame := 3\<rparr>"

text \<open>After 29 soft frames, a calm one, and the state after the soft frame that follows.\<close>

definition afterCalm :: Renderer where
  "afterCalm = countdownEnd\<lparr>mFrameCount := 30\<rparr>"

definition lateEvents :: "event list" where
  "lateEvents =
    [PushedConstants 0 (demoPush IDENTITY),
     CreatedSwapchain
       \<lparr>imageExtentWidth = 1920, imageExtentHeight = 1080, preTransform = ROTATE_90,
        oldSwapchain = 100\<rparr> 200]"

definition afterLate :: Renderer where
  "afterLate = afterCountdown\<lparr>mFrameCount := 31, mRetireFrame := 32\<rparr>"

definition lostEvents :: "event list" where
  "lostEvents =
    [CreatedImageView 0 102, CreatedFramebuffer 0 103, PushedConstants 0 (demoPush IDENTITY),
     CreatedSwapchain
       \<lparr>imageExtentWidth = 1080, imageExtentHeight = 1920, preTransform = IDENTITY,
        oldSwapchain = 100\<rparr> 200]"

definition afterLost :: Renderer where
  "afterLost = afterFlip\<lparr>mPreTransform := IDENTITY\<rparr>"

section \<open>What each step changes\<close>

lemma is180_differsBy180: "is180 a b = differsBy180 a b"
  by (cases a; cases b) (simp_all add: differsBy180_def)

lemma createSwapchain_Inr:
  assumes "createSwapchain s old r = Inr (ev, s')"
  shows "\<exists>info. ev = [CreatedSwapchain info (createdSwapchain r)]"
    and "mPreRotationLatency s' = mPreRotationLatency s"
    and "mFireRecreateSwapchain s' = mFireRecreateSwapchain s"
    and "mOldSwapchain s' = mOldSwapchain s"
    and "mOldImages s' = mOldImages s"
    and "mOldImageViews s' = mOldImageViews s"
    and "mOldFramebuffers s' = mOldFramebuffers s"
    and "mRetireFrame s' = mRetireFrame s"
    and "mFrameCount s' = mFrameCount s"
    and "mTextures s' = mTextures s"
    and "mSwapchain s' = createdSwapchain r"
  using assms
  by (auto simp: createSwapchain_def Let_def split: if_splits)

lemma recreateSwapchain_Inr:
  assumes "recreateSwapchain s r = Inr (ev, s')"
  shows "\<exists>info. ev = [CreatedSwapchain info (createdSwapchain r)]"
    and "mPreRotationLatency s' = kPreRotationLatency"
    and "mFireRecreateSwapchain s' = False"
    and "mOldSwapchain s' = mSwapchain s"
    and "mOldImages s' = mImages s"
    and "mOldImageViews s' = mImageViews s"
    and "mOldFramebuffers s' = mFramebuffers s"
    and "mRetireFrame s' = mFrameCount s + kInflight"
    and "mFrameCount s' = mFrameCount s"
    and "mTextures s' = mTextures s"
    and "mSwapchain s' = createdSwapchain r"
  using assms
  by (auto simp: recreateSwapchain_def Let_def dest: createSwapchain_Inr)

lemma recreateSwapchain_events:
  assumes "recreateSwapchain s r = Inr (ev, s')"
  shows "filter isSwap ev = ev" and "length ev = 1" and "filter isDestroy ev = []"
  using recreateSwapchain_Inr(1) [OF assms] by auto

lemma renderAndPresent_Inr:
  assumes "renderAndPresent s r = Inr (ev, s1, ret)"
  shows "ret = queuePresentResult r"
    and "filter isSwap ev = []"
    and "filter isDestroy ev = []"
  using assms
  by (auto simp: renderAndPresent_def createFramebuffer_def recordCommandBuffer_def Let_def
      split: if_splits sum.splits prod.splits)

lemma renderAndPresent_fields:
  assumes "renderAndPresent s r = Inr (ev, s1, ret)"
  shows "mPreTransform s1 = mPreTransform s"
    and "mPreRotationLatency s1 = mPreRotationLatency s"
    and "mFireRecreateSwapchain s1 = mFireRecreateSwapchain s"
    and "mFrameCount s1 = mFrameCount s"
    and "mRetireFrame s1 = mRetireFrame s"
    and "mSwapchain s1 = mSwapchain s"
    and "mOldSwapchain s1 = mOldSwapchain s"
    and "mOldImages s1 = mOldImages s"
    and "mOldImageViews s1 = mOldImageViews s"
    and "mOldFramebuffers s1 = mOldFramebuffers s"
    and "mImages s1 = mImages s"
  using assms
  by (auto simp: renderAndPresent_def createFramebuffer_def Let_def
      split: if_splits sum.splits prod.splits)

lemma retireCheck_fields:
  assumes "retireCheck s = (ev, s')"
  shows "filter isSwap ev = []"
    and "mPreTransform s' = mPreTransform s"
    and "mPreRotationLatency s' = mPreRotationLatency s"
    and "mFireRecreateSwapchain s' = mFireRecreateSwapchain s"
    and "mFrameCount s' = mFrameCount s"
    and "mSwapchain s' = mSwapchain s"
    and "mRetireFrame s' = mRetireFrame s"
    and "mImages s' = mImages s"
    and "mImageViews s' = mImageViews s"
    and "mFramebuffers s' = mFramebuffers s"
  using assms
  by (auto simp: retireCheck_def destroyOldSwapchain_def split: if_splits)

lemma retireCheck_idle:
  assumes "mOldSwapchain s = VK_NULL_HANDLE \<or> mRetireFrame s \<noteq> mFrameCount s"
  shows "retireCheck s = ([], s)"
  using assms by (auto simp: retireCheck_def)

lemma retireCheck_due:
  assumes "mOldSwapchain s \<noteq> VK_NULL_HANDLE" and "mRetireFrame s = mFrameCount s"
  shows "retireCheck s = destroyOldSwapchain s"
  using assms by (simp add: retireCheck_def)


lemma drawFrame_Inr:
  assumes "drawFrame s r = Inr (ev, s')"
  obtains ev1 s1 ev2 s2 ev3 s3 where
    "renderAndPresent s r = Inr (ev1, s1, queuePresentResult r)"
    "retireCheck s1 = (ev2, s2)"
    "swapCheck s2 (queuePresentResult r) r = Inr (ev3, s3)"
    "ev = ev1 @ ev2 @ ev3"
    "s' = s3\<lparr>mFrameCount := mFrameCount s3 + 1\<rparr>"
  using assms
  by (auto simp: drawFrame_def split: sum.splits prod.splits dest: renderAndPresent_Inr(1))

lemma swapCheck_Inr:
  assumes "swapCheck s ret r = Inr (ev, s')"
  shows "(ev = [] \<and> (s' = s \<or> s' = s\<lparr>mPreRotationLatency := mPreRotationLatency s - 1\<rparr>)) \<or>
         (recreateSwapchain s (recreateReply r) = Inr (ev, s') \<or>
          recreateSwapchain (s\<lparr>mPreRotationLatency := 0\<rparr>) (recreateReply r) = Inr (ev, s'))"
  using assms
  by (auto simp: swapCheck_def is180Rotation_def Let_def split: if_splits)


lemma swapCheck_without_swap:
  assumes "swapCheck s ret r = Inr (ev, s')" and "filter isSwap ev = []"
  shows "ev = []"
    and "s' = s \<or> s' = s\<lparr>mPreRotationLatency := mPreRotationLatency s - 1\<rparr>"
proof -
  have no_swap: "recreateSwapchain t (recreateReply r) \<noteq> Inr (ev, s')" for t
  proof
    assume "recreateSwapchain t (recreateReply r) = Inr (ev, s')"
    from recreateSwapchain_events(1,2) [OF this] assms(2) show False by simp
  qed
  with swapCheck_Inr [OF assms(1)]
  show "ev = []"
    and "s' = s \<or> s' = s\<lparr>mPreRotationLatency := mPreRotationLatency s - 1\<rparr>"
    by blast+
qed

lemma swapCheck_with_swap:
  assumes "swapCheck s ret r = Inr (ev, s')" and "filter isSwap ev \<noteq> []"
  shows "\<exists>c. recreateSwapchain (s\<lparr>mPreRotationLatency := c\<rparr>) (recreateReply r) = Inr (ev, s')"
proof -
  have "recreateSwapchain s (recreateReply r) = Inr (ev, s') \<or>
      recreateSwapchain (s\<lparr>mPreRotationLatency := 0\<rparr>) (recreateReply r) = Inr (ev, s')"
    using swapCheck_Inr [OF assms(1)] assms(2) by auto
  moreover have "s\<lparr>mPreRotationLatency := mPreRotationLatency s\<rparr> = s"
    by simp
  ultimately show ?thesis by metis
qed

lemma swapCheck_countdown:
  assumes "ret = VK_SUBOPTIMAL_KHR"
    and "\<not> is180 (currentTransform (rotationCaps r)) (mPreTransform s)"
    and "\<not> mFireRecreateSwapchain s"
    and "swapCheck s ret r = Inr (ev, s')"
  shows "mPreRotationLatency s \<noteq> 1 \<Longrightarrow>
           ev = [] \<and> s' = s\<lparr>mPreRotationLatency := mPreRotationLatency s - 1\<rparr>"
    and "mPreRotationLatency s = 1 \<Longrightarrow>
           recreateSwapchain (s\<lparr>mPreRotationLatency := 0\<rparr>) (recreateReply r) = Inr (ev, s')"
  using assms
  by (auto simp: swapCheck_def is180Rotation_def Let_def split: if_splits)

lemma renderAndPresent_latency:
  "renderAndPresent (s\<lparr>mPreRotationLatency := c\<rparr>) r =
    (case renderAndPresent s r of Inl e \<Rightarrow> Inl e
     | Inr (ev, s1, ret) \<Rightarrow> Inr (ev, s1\<lparr>mPreRotationLatency := c\<rparr>, ret))"
  by (auto simp: renderAndPresent_def createFramebuffer_def recordCommandBuffer_def Let_def
      split: sum.splits prod.splits)

lemma retireCheck_latency:
  "retireCheck (s\<lparr>mPreRotationLatency := c\<rparr>) =
    (case retireCheck s of (ev, s1) \<Rightarrow> (ev, s1\<lparr>mPreRotationLatency := c\<rparr>))"
  by (simp add: retireCheck_def destroyOldSwapchain_def)

lemma recreateSwapchain_latency:
  "recreateSwapchain (s\<lparr>mPreRotationLatency := c\<rparr>) r = recreateSwapchain s r"
  by (simp add: recreateSwapchain_def)

section \<open>The concrete device, evaluated\<close>

lemmas frame_defs =
  drawFrame_def renderAndPresent_def createFramebuffer_def recordCommandBuffer_def
  retireCheck_def destroyOldSwapchain_def swapCheck_def is180Rotation_def
  recreateSwapchain_def createSwapchain_def resize_def kInflight_def
  kPreRotationLatency_def Let_def

lemmas demo_defs =
  demoCaps_def demoSwapchain_def demoFrame_def demoPush_def demoStart_def demoTexture_def

lemma frames_unfold: "replicate (numeral n) (r :: frame_reply) = r # replicate (pred_numeral n) r"
  using replicate_Suc [of "pred_numeral n" r] by (simp only: numeral_eq_Suc)

lemma demoStart_initialize:
  "initialize (demoSwapchain IDENTITY 100) demoTexture =
    Inr ([CreatedSwapchain
           \<lparr>imageExtentWidth = 1080, imageExtentHeight = 1920, preTransform = IDENTITY,
            oldSwapchain = VK_NULL_HANDLE\<rparr> 100], demoStart)"
  by (simp add: initialize_def defaultRenderer_def kTextureCount_def frame_defs demo_defs)

lemma demoStart_reachable: "reachable demoStart"
  using demoStart_initialize by (rule reach_init)

lemma flipFrame_run: "drawFrame demoStart flipFrame = Inr (flipEvents, afterFlip)"
  by (simp add: flipFrame_def flipEvents_def afterFlip_def frame_defs demo_defs)

lemma afterFlip_reachable: "reachable afterFlip"
  using demoStart_reachable flipFrame_run by (rule reach_frame)

section \<open>The half turn\<close>

text \<open>
  Claim C3. When present answers suboptimal and the transform the surface reports is half
  a turn away from the transform of the current swapchain, a frame that completes
  executes the swap, once, in that same frame, and the countdown is not decremented: the
  frame ends with the counter at its seed, and its events and final state are the same
  for every value the counter had before.
\<close>

theorem drawFrame_half_turn_swaps_now:
  assumes sub: "queuePresentResult r = VK_SUBOPTIMAL_KHR"
    and half: "differsBy180 (currentTransform (rotationCaps r)) (mPreTransform s)"
    and run: "drawFrame s r = Inr (ev, s')"
  shows "length (filter isSwap ev) = 1 \<and>
         mPreRotationLatency s' = kPreRotationLatency \<and>
         drawFrame (s\<lparr>mPreRotationLatency := c\<rparr>) r = Inr (ev, s')"
proof -
  from run obtain ev1 s1 ev2 s2 ev3 s3 where
    rp: "renderAndPresent s r = Inr (ev1, s1, queuePresentResult r)" and
    rc: "retireCheck s1 = (ev2, s2)" and
    sc: "swapCheck s2 (queuePresentResult r) r = Inr (ev3, s3)" and
    ev: "ev = ev1 @ ev2 @ ev3" and
    s': "s' = s3\<lparr>mFrameCount := mFrameCount s3 + 1\<rparr>"
    by (rule drawFrame_Inr)
  have pre: "mPreTransform s2 = mPreTransform s"
    using renderAndPresent_fields(1) [OF rp] retireCheck_fields(2) [OF rc] by simp
  have rot: "is180 (currentTransform (rotationCaps r)) (mPreTransform s2)"
    using half pre by (simp add: is180_differsBy180)
  have caps: "capsResult (rotationCaps r) = VK_SUCCESS"
    using sc sub by (simp add: swapCheck_def is180Rotation_def split: if_splits)
  have re: "recreateSwapchain s2 (recreateReply r) = Inr (ev3, s3)"
    using sc sub rot caps by (simp add: swapCheck_def is180Rotation_def)
  have once: "length (filter isSwap ev) = 1"
    using ev renderAndPresent_Inr(2) [OF rp] retireCheck_fields(1) [OF rc]
      recreateSwapchain_events(1,2) [OF re] by simp
  have seed: "mPreRotationLatency s' = kPreRotationLatency"
    using recreateSwapchain_Inr(2) [OF re] s' by simp
  have "swapCheck (s2\<lparr>mPreRotationLatency := c\<rparr>) (queuePresentResult r) r = Inr (ev3, s3)"
    using re sub rot caps
    by (simp add: swapCheck_def is180Rotation_def recreateSwapchain_latency)
  then have "drawFrame (s\<lparr>mPreRotationLatency := c\<rparr>) r = Inr (ev, s')"
    using rp rc ev s'
    by (simp add: drawFrame_def renderAndPresent_latency retireCheck_latency)
  with once seed show ?thesis by simp
qed

theorem drawFrame_half_turn_swaps_now_witness:
  "queuePresentResult flipFrame = VK_SUBOPTIMAL_KHR \<and>
   differsBy180 (currentTransform (rotationCaps flipFrame)) (mPreTransform demoStart) \<and>
   drawFrame demoStart flipFrame = Inr (flipEvents, afterFlip) \<and>
   length (filter isSwap flipEvents) = 1 \<and>
   mPreRotationLatency afterFlip = kPreRotationLatency \<and>
   drawFrame (demoStart\<lparr>mPreRotationLatency := 7\<rparr>) flipFrame = Inr (flipEvents, afterFlip)"
proof -
  have sub: "queuePresentResult flipFrame = VK_SUBOPTIMAL_KHR"
    by (simp add: flipFrame_def demoFrame_def)
  have half: "differsBy180 (currentTransform (rotationCaps flipFrame)) (mPreTransform demoStart)"
    by (simp add: flipFrame_def demoFrame_def demoCaps_def demoStart_def differsBy180_def)
  show ?thesis
    using sub half flipFrame_run
      drawFrame_half_turn_swaps_now [OF sub half flipFrame_run, of 7]
    by simp
qed

section \<open>The countdown\<close>

text \<open>
  One frame of the countdown: present answers suboptimal, the reported transform is not
  half a turn away, no resize is pending and the counter is not at 1.
\<close>

lemma countdown_frame:
  assumes sub: "queuePresentResult r = VK_SUBOPTIMAL_KHR"
    and rot: "\<not> differsBy180 (currentTransform (rotationCaps r)) (mPreTransform s)"
    and fire: "\<not> mFireRecreateSwapchain s"
    and lat: "mPreRotationLatency s \<noteq> 1"
    and run: "drawFrame s r = Inr (ev, s')"
  shows "filter isSwap ev = []"
    and "mPreRotationLatency s' = mPreRotationLatency s - 1"
    and "\<not> mFireRecreateSwapchain s'"
    and "mPreTransform s' = mPreTransform s"
    and "mSwapchain s' = mSwapchain s"
    and "mOldSwapchain s = VK_NULL_HANDLE \<Longrightarrow>
           filter isDestroy ev = [] \<and> mOldSwapchain s' = VK_NULL_HANDLE"
proof -
  from run obtain ev1 s1 ev2 s2 ev3 s3 where
    rp: "renderAndPresent s r = Inr (ev1, s1, queuePresentResult r)" and
    rc: "retireCheck s1 = (ev2, s2)" and
    sc: "swapCheck s2 (queuePresentResult r) r = Inr (ev3, s3)" and
    ev: "ev = ev1 @ ev2 @ ev3" and
    s': "s' = s3\<lparr>mFrameCount := mFrameCount s3 + 1\<rparr>"
    by (rule drawFrame_Inr)
  note f1 = renderAndPresent_fields [OF rp]
  note f2 = retireCheck_fields [OF rc]
  have rot2: "\<not> is180 (currentTransform (rotationCaps r)) (mPreTransform s2)"
    using rot f1(1) f2(2) by (simp add: is180_differsBy180)
  have fire2: "\<not> mFireRecreateSwapchain s2"
    using fire f1(3) f2(4) by simp
  have lat2: "mPreRotationLatency s2 \<noteq> 1"
    using lat f1(2) f2(3) by simp
  have step: "ev3 = [] \<and> s3 = s2\<lparr>mPreRotationLatency := mPreRotationLatency s2 - 1\<rparr>"
    using swapCheck_countdown(1) [OF sub rot2 fire2 sc lat2] .
  show "filter isSwap ev = []"
    using ev step renderAndPresent_Inr(2) [OF rp] f2(1) by simp
  show "mPreRotationLatency s' = mPreRotationLatency s - 1"
    using s' step f1(2) f2(3) by simp
  show "\<not> mFireRecreateSwapchain s'"
    using s' step fire2 by simp
  show "mPreTransform s' = mPreTransform s"
    using s' step f1(1) f2(2) by simp
  show "mSwapchain s' = mSwapchain s"
    using s' step f1(6) f2(6) by simp
  show "filter isDestroy ev = [] \<and> mOldSwapchain s' = VK_NULL_HANDLE"
    if none: "mOldSwapchain s = VK_NULL_HANDLE"
  proof -
    have old1: "mOldSwapchain s1 = VK_NULL_HANDLE"
      using none f1(7) by simp
    then have "ev2 = []" "s2 = s1"
      using rc retireCheck_idle [of s1] by simp_all
    then show ?thesis
      using ev step s' renderAndPresent_Inr(3) [OF rp] old1 by simp
  qed
qed

text \<open>The frame at which the counter stands at 1: the decrement reaches zero.\<close>

lemma countdown_fires:
  assumes sub: "queuePresentResult r = VK_SUBOPTIMAL_KHR"
    and rot: "\<not> differsBy180 (currentTransform (rotationCaps r)) (mPreTransform s)"
    and fire: "\<not> mFireRecreateSwapchain s"
    and lat: "mPreRotationLatency s = 1"
    and run: "drawFrame s r = Inr (ev, s')"
  shows "length (filter isSwap ev) = 1"
    and "mPreRotationLatency s' = kPreRotationLatency"
proof -
  from run obtain ev1 s1 ev2 s2 ev3 s3 where
    rp: "renderAndPresent s r = Inr (ev1, s1, queuePresentResult r)" and
    rc: "retireCheck s1 = (ev2, s2)" and
    sc: "swapCheck s2 (queuePresentResult r) r = Inr (ev3, s3)" and
    ev: "ev = ev1 @ ev2 @ ev3" and
    s': "s' = s3\<lparr>mFrameCount := mFrameCount s3 + 1\<rparr>"
    by (rule drawFrame_Inr)
  note f1 = renderAndPresent_fields [OF rp]
  note f2 = retireCheck_fields [OF rc]
  have rot2: "\<not> is180 (currentTransform (rotationCaps r)) (mPreTransform s2)"
    using rot f1(1) f2(2) by (simp add: is180_differsBy180)
  have fire2: "\<not> mFireRecreateSwapchain s2"
    using fire f1(3) f2(4) by simp
  have lat2: "mPreRotationLatency s2 = 1"
    using lat f1(2) f2(3) by simp
  have re: "recreateSwapchain (s2\<lparr>mPreRotationLatency := 0\<rparr>) (recreateReply r) = Inr (ev3, s3)"
    using swapCheck_countdown(2) [OF sub rot2 fire2 sc lat2] .
  show "length (filter isSwap ev) = 1"
    using ev renderAndPresent_Inr(2) [OF rp] f2(1) recreateSwapchain_events(1,2) [OF re]
    by simp
  show "mPreRotationLatency s' = kPreRotationLatency"
    using recreateSwapchain_Inr(2) [OF re] s' by simp
qed

text \<open>A run of countdown frames shorter than the counter's value.\<close>

lemma countdown_run:
  assumes "\<forall>r \<in> set rs. queuePresentResult r = VK_SUBOPTIMAL_KHR \<and>
             \<not> differsBy180 (currentTransform (rotationCaps r)) (mPreTransform s)"
    and "\<not> mFireRecreateSwapchain s"
    and "length rs < unat (mPreRotationLatency s)"
    and "runFrames s rs = Inr (evs, s')"
  shows "length evs = length rs \<and>
         filter isSwap (concat evs) = [] \<and>
         (mOldSwapchain s = VK_NULL_HANDLE \<longrightarrow> filter isDestroy (concat evs) = []) \<and>
         unat (mPreRotationLatency s') = unat (mPreRotationLatency s) - length rs \<and>
         \<not> mFireRecreateSwapchain s' \<and>
         mPreTransform s' = mPreTransform s \<and>
         mSwapchain s' = mSwapchain s"
  using assms
proof (induction rs arbitrary: s evs)
  case Nil
  then show ?case by simp
next
  case (Cons r rs)
  from Cons.prems(4) obtain ev s1 evs1 where
    fr: "drawFrame s r = Inr (ev, s1)" and
    rest: "runFrames s1 rs = Inr (evs1, s')" and
    evs: "evs = ev # evs1"
    by (auto split: sum.splits prod.splits)
  have sub: "queuePresentResult r = VK_SUBOPTIMAL_KHR"
    and rot: "\<not> differsBy180 (currentTransform (rotationCaps r)) (mPreTransform s)"
    using Cons.prems(1) by simp_all
  have lat: "mPreRotationLatency s \<noteq> 1"
    using Cons.prems(3) by auto
  have nz: "mPreRotationLatency s \<noteq> 0"
    using Cons.prems(3) by auto
  note fr_facts = countdown_frame [OF sub rot Cons.prems(2) lat fr]
  have dec: "unat (mPreRotationLatency s1) = unat (mPreRotationLatency s) - 1"
    using fr_facts(2) nz by (simp add: unat_minus_one)
  have ih: "length evs1 = length rs \<and>
         filter isSwap (concat evs1) = [] \<and>
         (mOldSwapchain s1 = VK_NULL_HANDLE \<longrightarrow> filter isDestroy (concat evs1) = []) \<and>
         unat (mPreRotationLatency s') = unat (mPreRotationLatency s1) - length rs \<and>
         \<not> mFireRecreateSwapchain s' \<and>
         mPreTransform s' = mPreTransform s1 \<and>
         mSwapchain s' = mSwapchain s1"
  proof (rule Cons.IH [OF _ _ _ rest])
    show "\<forall>r\<in>set rs. queuePresentResult r = VK_SUBOPTIMAL_KHR \<and>
        \<not> differsBy180 (currentTransform (rotationCaps r)) (mPreTransform s1)"
      using Cons.prems(1) fr_facts(4) by simp
    show "\<not> mFireRecreateSwapchain s1" using fr_facts(3) .
    show "length rs < unat (mPreRotationLatency s1)"
      using Cons.prems(3) dec by simp
  qed
  show ?case
    using ih evs fr_facts dec by auto
qed

text \<open>
  Claim C1, as amended. Start with the counter at its seed of 30 and no resize pending.
  Over 30 consecutive frames that complete, in each of which present answers suboptimal
  and the reported transform is not half a turn away from the transform of the current
  swapchain: the first 29 frames execute no swap, and they destroy nothing provided no
  old swapchain was waiting to be retired at the start; the 30th frame executes exactly
  one swap and leaves the counter at 30 again.
\<close>

theorem debounce_swaps_on_thirtieth_frame:
  assumes seed: "mPreRotationLatency s = kPreRotationLatency"
    and fire: "\<not> mFireRecreateSwapchain s"
    and len: "length rs = 29"
    and sig: "\<forall>r \<in> set (rs @ [r30]). queuePresentResult r = VK_SUBOPTIMAL_KHR \<and>
               \<not> differsBy180 (currentTransform (rotationCaps r)) (mPreTransform s)"
    and run: "runFrames s rs = Inr (evs, s')"
    and last: "drawFrame s' r30 = Inr (ev, s'')"
  shows "length evs = 29 \<and>
         filter isSwap (concat evs) = [] \<and>
         (mOldSwapchain s = VK_NULL_HANDLE \<longrightarrow> filter isDestroy (concat evs) = []) \<and>
         length (filter isSwap ev) = 1 \<and>
         mPreRotationLatency s'' = kPreRotationLatency"
proof -
  have sig29: "\<forall>r \<in> set rs. queuePresentResult r = VK_SUBOPTIMAL_KHR \<and>
               \<not> differsBy180 (currentTransform (rotationCaps r)) (mPreTransform s)"
    using sig by simp
  have short: "length rs < unat (mPreRotationLatency s)"
    using seed len by (simp add: kPreRotationLatency_def)
  note first = countdown_run [OF sig29 fire short run]
  have "unat (mPreRotationLatency s') = 1"
    using first seed len by (simp add: kPreRotationLatency_def)
  then have one: "mPreRotationLatency s' = 1"
    by (simp add: word_unat_eq_iff)
  have sub30: "queuePresentResult r30 = VK_SUBOPTIMAL_KHR"
    and rot30: "\<not> differsBy180 (currentTransform (rotationCaps r30)) (mPreTransform s')"
    using sig first by simp_all
  have fire': "\<not> mFireRecreateSwapchain s'"
    using first by simp
  note fired = countdown_fires [OF sub30 rot30 fire' one last]
  show ?thesis
    using first len fired by simp
qed

lemma countdown_run_demo:
  "\<exists>evs. runFrames demoStart (replicate 29 softFrame) = Inr (evs, countdownEnd)"
  by (simp add: softFrame_def countdownEnd_def frames_unfold frame_defs demo_defs)

lemma countdown_last_demo:
  "\<exists>ev s''. drawFrame countdownEnd softFrame = Inr (ev, s'')"
  by (simp add: softFrame_def countdownEnd_def frame_defs demo_defs)

theorem debounce_swaps_on_thirtieth_frame_witness:
  "mPreRotationLatency demoStart = kPreRotationLatency \<and>
   \<not> mFireRecreateSwapchain demoStart \<and>
   mOldSwapchain demoStart = VK_NULL_HANDLE \<and>
   queuePresentResult softFrame = VK_SUBOPTIMAL_KHR \<and>
   \<not> differsBy180 (currentTransform (rotationCaps softFrame)) (mPreTransform demoStart) \<and>
   (\<exists>evs ev s''.
      runFrames demoStart (replicate 29 softFrame) = Inr (evs, countdownEnd) \<and>
      drawFrame countdownEnd softFrame = Inr (ev, s'') \<and>
      length evs = 29 \<and>
      filter isSwap (concat evs) = [] \<and>
      filter isDestroy (concat evs) = [] \<and>
      length (filter isSwap ev) = 1 \<and>
      mPreRotationLatency s'' = kPreRotationLatency)"
proof -
  have seed: "mPreRotationLatency demoStart = kPreRotationLatency"
    and fire: "\<not> mFireRecreateSwapchain demoStart"
    and none: "mOldSwapchain demoStart = VK_NULL_HANDLE"
    by (simp_all add: demoStart_def kPreRotationLatency_def)
  have sub: "queuePresentResult softFrame = VK_SUBOPTIMAL_KHR"
    and rot: "\<not> differsBy180 (currentTransform (rotationCaps softFrame)) (mPreTransform demoStart)"
    by (simp_all add: softFrame_def demoFrame_def demoCaps_def demoStart_def differsBy180_def)
  have sig: "\<forall>r \<in> set (replicate 29 softFrame @ [softFrame]).
      queuePresentResult r = VK_SUBOPTIMAL_KHR \<and>
      \<not> differsBy180 (currentTransform (rotationCaps r)) (mPreTransform demoStart)"
    using sub rot by simp
  have len: "length (replicate 29 softFrame) = 29"
    by simp
  obtain evs where run: "runFrames demoStart (replicate 29 softFrame) = Inr (evs, countdownEnd)"
    using countdown_run_demo by blast
  obtain ev s'' where last: "drawFrame countdownEnd softFrame = Inr (ev, s'')"
    using countdown_last_demo by blast
  show ?thesis
    using seed fire none sub rot run last
      debounce_swaps_on_thirtieth_frame [OF seed fire len sig run last]
    by blast
qed

text \<open>
  Claim C1 as stated does not hold: it allows any start with the counter at 30, and the
  state right after a swap is one. There the swapchain just replaced is still waiting,
  and it is torn down in the second of the suboptimal frames that follow.
\<close>

theorem debounce_teardown_counterexample:
  "mPreRotationLatency afterFlip = kPreRotationLatency \<and>
   \<not> mFireRecreateSwapchain afterFlip \<and>
   queuePresentResult quarterTurnFrame = VK_SUBOPTIMAL_KHR \<and>
   \<not> differsBy180 (currentTransform (rotationCaps quarterTurnFrame)) (mPreTransform afterFlip) \<and>
   runFrames afterFlip [quarterTurnFrame, quarterTurnFrame] =
     Inr ([[CreatedImageView 0 202, CreatedFramebuffer 0 203,
            PushedConstants 1 (demoPush ROTATE_180)],
           [PushedConstants 0 (demoPush ROTATE_180),
            DestroyedFramebuffer 103, DestroyedImageView 102, DestroyedSwapchain 100]],
          afterQuarterTurns)"
  by (simp add: quarterTurnFrame_def afterFlip_def afterQuarterTurns_def differsBy180_def
      frame_defs demo_defs)

section \<open>Retirement of the outgoing swapchain\<close>



text \<open>What a frame that swaps leaves in the old members.\<close>

lemma swapping_frame:
  assumes run: "drawFrame s r = Inr (ev, s')" and swapped: "filter isSwap ev \<noteq> []"
  shows "mOldSwapchain s' = mSwapchain s"
    and "mOldImages s' = mImages s"
    and "mRetireFrame s' = mFrameCount s + kInflight"
    and "mFrameCount s' = mFrameCount s + 1"
    and "mPreRotationLatency s' = kPreRotationLatency"
    and "\<exists>evr sr. renderAndPresent s r = Inr (evr, sr, queuePresentResult r) \<and>
           mOldFramebuffers s' = mFramebuffers sr \<and> mOldImageViews s' = mImageViews sr"
proof -
  from run obtain ev1 s1 ev2 s2 ev3 s3 where
    rp: "renderAndPresent s r = Inr (ev1, s1, queuePresentResult r)" and
    rc: "retireCheck s1 = (ev2, s2)" and
    sc: "swapCheck s2 (queuePresentResult r) r = Inr (ev3, s3)" and
    ev: "ev = ev1 @ ev2 @ ev3" and
    s': "s' = s3\<lparr>mFrameCount := mFrameCount s3 + 1\<rparr>"
    by (rule drawFrame_Inr)
  note f1 = renderAndPresent_fields [OF rp]
  note f2 = retireCheck_fields [OF rc]
  have "filter isSwap ev3 \<noteq> []"
    using swapped ev renderAndPresent_Inr(2) [OF rp] f2(1) by simp
  then obtain c where
    re: "recreateSwapchain (s2\<lparr>mPreRotationLatency := c\<rparr>) (recreateReply r) = Inr (ev3, s3)"
    using swapCheck_with_swap [OF sc] by blast
  note f3 = recreateSwapchain_Inr [OF re]
  show "mOldSwapchain s' = mSwapchain s"
    using s' f3(4) f2(6) f1(6) by simp
  show "mOldImages s' = mImages s"
    using s' f3(5) f2(8) f1(11) by simp
  show "mRetireFrame s' = mFrameCount s + kInflight"
    using s' f3(8) f2(5) f1(4) by simp
  show "mFrameCount s' = mFrameCount s + 1"
    using s' f3(9) f2(5) f1(4) by simp
  show "mPreRotationLatency s' = kPreRotationLatency"
    using s' f3(2) by simp
  have "mOldFramebuffers s' = mFramebuffers s1" "mOldImageViews s' = mImageViews s1"
    using s' f3(6,7) f2(9,10) by simp_all
  with rp show "\<exists>evr sr. renderAndPresent s r = Inr (evr, sr, queuePresentResult r) \<and>
           mOldFramebuffers s' = mFramebuffers sr \<and> mOldImageViews s' = mImageViews sr"
    by blast
qed

text \<open>What a frame that does not swap leaves alone.\<close>

lemma quiet_frame:
  assumes run: "drawFrame s r = Inr (ev, s')" and quiet: "filter isSwap ev = []"
  shows "mFrameCount s' = mFrameCount s + 1"
    and "mOldSwapchain s \<noteq> VK_NULL_HANDLE \<and> mRetireFrame s = mFrameCount s \<Longrightarrow>
           mOldSwapchain s' = VK_NULL_HANDLE \<and> mOldImages s' = [] \<and>
           mOldImageViews s' = [] \<and> mOldFramebuffers s' = []"
    and "mOldSwapchain s = VK_NULL_HANDLE \<or> mRetireFrame s \<noteq> mFrameCount s \<Longrightarrow>
           mOldSwapchain s' = mOldSwapchain s \<and> mOldImages s' = mOldImages s \<and>
           mOldImageViews s' = mOldImageViews s \<and> mOldFramebuffers s' = mOldFramebuffers s \<and>
           mRetireFrame s' = mRetireFrame s"
    and "mPreRotationLatency s' = mPreRotationLatency s \<or>
         mPreRotationLatency s' = mPreRotationLatency s - 1"
proof -
  from run obtain ev1 s1 ev2 s2 ev3 s3 where
    rp: "renderAndPresent s r = Inr (ev1, s1, queuePresentResult r)" and
    rc: "retireCheck s1 = (ev2, s2)" and
    sc: "swapCheck s2 (queuePresentResult r) r = Inr (ev3, s3)" and
    ev: "ev = ev1 @ ev2 @ ev3" and
    s': "s' = s3\<lparr>mFrameCount := mFrameCount s3 + 1\<rparr>"
    by (rule drawFrame_Inr)
  note f1 = renderAndPresent_fields [OF rp]
  note f2 = retireCheck_fields [OF rc]
  have "filter isSwap ev3 = []"
    using quiet ev by simp
  from swapCheck_without_swap(2) [OF sc this]
  have s3: "s3 = s2 \<or> s3 = s2\<lparr>mPreRotationLatency := mPreRotationLatency s2 - 1\<rparr>" .
  show "mFrameCount s' = mFrameCount s + 1"
    using s' s3 f2(5) f1(4) by auto
  show "mPreRotationLatency s' = mPreRotationLatency s \<or>
         mPreRotationLatency s' = mPreRotationLatency s - 1"
    using s' s3 f2(3) f1(2) by auto
  show "mOldSwapchain s' = VK_NULL_HANDLE \<and> mOldImages s' = [] \<and>
           mOldImageViews s' = [] \<and> mOldFramebuffers s' = []"
    if "mOldSwapchain s \<noteq> VK_NULL_HANDLE \<and> mRetireFrame s = mFrameCount s"
  proof -
    have "retireCheck s1 = destroyOldSwapchain s1"
      using that f1 by (intro retireCheck_due) simp_all
    then have "s2 = snd (destroyOldSwapchain s1)"
      using rc by (metis snd_conv)
    then show ?thesis
      using s' s3 by (auto simp: destroyOldSwapchain_def)
  qed
  show "mOldSwapchain s' = mOldSwapchain s \<and> mOldImages s' = mOldImages s \<and>
           mOldImageViews s' = mOldImageViews s \<and> mOldFramebuffers s' = mOldFramebuffers s \<and>
           mRetireFrame s' = mRetireFrame s"
    if "mOldSwapchain s = VK_NULL_HANDLE \<or> mRetireFrame s \<noteq> mFrameCount s"
  proof -
    have "retireCheck s1 = ([], s1)"
      using that f1 by (intro retireCheck_idle) auto
    then have "s2 = s1"
      using rc by simp
    then show ?thesis
      using s' s3 f1 by auto
  qed
qed






section \<open>One retiring generation\<close>











section \<open>The counter across successful frames\<close>

lemma calm_frame:
  assumes ok: "queuePresentResult r = VK_SUCCESS"
    and fire: "\<not> mFireRecreateSwapchain s"
    and run: "drawFrame s r = Inr (ev, s')"
  shows "filter isSwap ev = []"
    and "mPreRotationLatency s' = mPreRotationLatency s"
    and "\<not> mFireRecreateSwapchain s'"
    and "mPreTransform s' = mPreTransform s"
proof -
  from run obtain ev1 s1 ev2 s2 ev3 s3 where
    rp: "renderAndPresent s r = Inr (ev1, s1, queuePresentResult r)" and
    rc: "retireCheck s1 = (ev2, s2)" and
    sc: "swapCheck s2 (queuePresentResult r) r = Inr (ev3, s3)" and
    ev: "ev = ev1 @ ev2 @ ev3" and
    s': "s' = s3\<lparr>mFrameCount := mFrameCount s3 + 1\<rparr>"
    by (rule drawFrame_Inr)
  note f1 = renderAndPresent_fields [OF rp]
  note f2 = retireCheck_fields [OF rc]
  have fire2: "\<not> mFireRecreateSwapchain s2"
    using fire f1(3) f2(4) by simp
  have same: "ev3 = [] \<and> s3 = s2"
    using sc ok fire2 by (simp add: swapCheck_def)
  show "filter isSwap ev = []"
    using ev same renderAndPresent_Inr(2) [OF rp] f2(1) by simp
  show "mPreRotationLatency s' = mPreRotationLatency s"
    using s' same f1(2) f2(3) by simp
  show "\<not> mFireRecreateSwapchain s'"
    using s' same fire2 by simp
  show "mPreTransform s' = mPreTransform s"
    using s' same f1(1) f2(2) by simp
qed

lemma runFrames_append:
  assumes "runFrames s (xs @ ys) = Inr (evs, s')"
  shows "\<exists>e1 s1 e2. runFrames s xs = Inr (e1, s1) \<and> runFrames s1 ys = Inr (e2, s') \<and>
           evs = e1 @ e2"
  using assms
proof (induction xs arbitrary: s evs)
  case Nil
  then show ?case by simp
next
  case (Cons x xs)
  from Cons.prems obtain ev s1 evs1 where
    fr: "drawFrame s x = Inr (ev, s1)" and
    rest: "runFrames s1 (xs @ ys) = Inr (evs1, s')" and
    evs: "evs = ev # evs1"
    by (auto split: sum.splits prod.splits)
  from Cons.IH [OF rest] obtain e1 s2 e2 where
    "runFrames s1 xs = Inr (e1, s2)" "runFrames s2 ys = Inr (e2, s')" "evs1 = e1 @ e2"
    by blast
  then show ?case
    using fr evs by simp
qed

text \<open>
  Claim C10, as amended. The counter is written in two places only: the decrement of the
  countdown and the reset to 30 when a swap executes. A frame that completes and does
  not swap leaves the counter unchanged or one lower; a frame that swaps leaves it at 30.
  A frame whose present answers success while no resize is pending executes no swap
  and does not change the counter. So decrements survive successful frames: from the
  seed of 30, if 30 suboptimal frames (no half turn, no resize) are interrupted by a
  successful frame after the first \<open>k\<close> of them, the swap still executes at the 30th
  suboptimal frame, that is after only \<open>30 - k\<close> frames of the burst that follows the
  interruption.
\<close>

theorem countdown_survives_successful_frame:
  assumes seed: "mPreRotationLatency s = kPreRotationLatency"
    and fire: "\<not> mFireRecreateSwapchain s"
    and sig: "\<forall>r \<in> set (rs1 @ rs2 @ [r30]). queuePresentResult r = VK_SUBOPTIMAL_KHR \<and>
               \<not> differsBy180 (currentTransform (rotationCaps r)) (mPreTransform s)"
    and calm: "queuePresentResult c = VK_SUCCESS"
    and len: "length rs1 + length rs2 = 29"
    and run: "runFrames s (rs1 @ c # rs2) = Inr (evs, s1)"
    and last: "drawFrame s1 r30 = Inr (ev, s2)"
  shows "filter isSwap (concat evs) = [] \<and>
         length (filter isSwap ev) = 1 \<and>
         mPreRotationLatency s2 = kPreRotationLatency \<and>
         (\<forall>t d e t'. drawFrame t d = Inr (e, t') \<and> queuePresentResult d = VK_SUCCESS \<and>
              \<not> mFireRecreateSwapchain t \<longrightarrow>
              filter isSwap e = [] \<and> mPreRotationLatency t' = mPreRotationLatency t) \<and>
         (\<forall>t d e t'. drawFrame t d = Inr (e, t') \<and> filter isSwap e = [] \<longrightarrow>
              mPreRotationLatency t' = mPreRotationLatency t \<or>
              mPreRotationLatency t' = mPreRotationLatency t - 1) \<and>
         (\<forall>t d e t'. drawFrame t d = Inr (e, t') \<and> filter isSwap e \<noteq> [] \<longrightarrow>
              mPreRotationLatency t' = kPreRotationLatency)"
proof -
  from runFrames_append [OF run] obtain e1 a e2 where
    run1: "runFrames s rs1 = Inr (e1, a)" and
    run2: "runFrames a (c # rs2) = Inr (e2, s1)" and
    evs: "evs = e1 @ e2"
    by blast
  from run2 obtain ec b e3 where
    frc: "drawFrame a c = Inr (ec, b)" and
    run3: "runFrames b rs2 = Inr (e3, s1)" and
    e2: "e2 = ec # e3"
    by (auto split: sum.splits prod.splits)
  have sig1: "\<forall>r \<in> set rs1. queuePresentResult r = VK_SUBOPTIMAL_KHR \<and>
               \<not> differsBy180 (currentTransform (rotationCaps r)) (mPreTransform s)"
    using sig by simp
  have short1: "length rs1 < unat (mPreRotationLatency s)"
    using seed len by (simp add: kPreRotationLatency_def)
  note p1 = countdown_run [OF sig1 fire short1 run1]
  have fire_a: "\<not> mFireRecreateSwapchain a"
    using p1 by simp
  note pc = calm_frame [OF calm fire_a frc]
  have sig2: "\<forall>r \<in> set rs2. queuePresentResult r = VK_SUBOPTIMAL_KHR \<and>
               \<not> differsBy180 (currentTransform (rotationCaps r)) (mPreTransform b)"
    using sig p1 pc(4) by simp
  have lat_b: "unat (mPreRotationLatency b) = 30 - length rs1"
    using p1 pc(2) seed by (simp add: kPreRotationLatency_def)
  have short2: "length rs2 < unat (mPreRotationLatency b)"
    using lat_b len by simp
  note p2 = countdown_run [OF sig2 pc(3) short2 run3]
  have "unat (mPreRotationLatency s1) = 1"
    using p2 lat_b len by simp
  then have one: "mPreRotationLatency s1 = 1"
    by (simp add: word_unat_eq_iff)
  have sub30: "queuePresentResult r30 = VK_SUBOPTIMAL_KHR"
    and rot30: "\<not> differsBy180 (currentTransform (rotationCaps r30)) (mPreTransform s1)"
    using sig p1 pc(4) p2 by simp_all
  have fire1: "\<not> mFireRecreateSwapchain s1"
    using p2 by simp
  note fired = countdown_fires [OF sub30 rot30 fire1 one last]
  have none: "filter isSwap (concat evs) = []"
    using evs e2 p1 pc(1) p2 by simp
  have success: "filter isSwap e = [] \<and> mPreRotationLatency t' = mPreRotationLatency t"
    if "drawFrame t d = Inr (e, t')" "queuePresentResult d = VK_SUCCESS"
      "\<not> mFireRecreateSwapchain t" for t d e t'
    using calm_frame(1,2) [OF that(2,3,1)] by simp
  have unswapped: "mPreRotationLatency t' = mPreRotationLatency t \<or>
              mPreRotationLatency t' = mPreRotationLatency t - 1"
    if "drawFrame t d = Inr (e, t')" "filter isSwap e = []" for t d e t'
    using quiet_frame(4) [OF that] .
  have reset: "mPreRotationLatency t' = kPreRotationLatency"
    if "drawFrame t d = Inr (e, t')" "filter isSwap e \<noteq> []" for t d e t'
    using swapping_frame(5) [OF that] .
  show ?thesis
    using none fired success unswapped reset by blast
qed

lemma interrupted_run_demo:
  "\<exists>evs. runFrames demoStart (replicate 29 softFrame @ calmFrame # []) = Inr (evs, afterCalm)"
  by (simp add: softFrame_def calmFrame_def afterCalm_def countdownEnd_def frames_unfold
      frame_defs demo_defs)

lemma late_swap_demo: "drawFrame afterCalm softFrame = Inr (lateEvents, afterLate)"
  by (simp add: softFrame_def afterCalm_def countdownEnd_def lateEvents_def afterLate_def
      afterCountdown_def frame_defs demo_defs)

theorem countdown_survives_successful_frame_witness:
  "mPreRotationLatency demoStart = kPreRotationLatency \<and>
   \<not> mFireRecreateSwapchain demoStart \<and>
   queuePresentResult calmFrame = VK_SUCCESS \<and>
   queuePresentResult softFrame = VK_SUBOPTIMAL_KHR \<and>
   drawFrame afterCalm softFrame = Inr (lateEvents, afterLate) \<and>
   length (filter isSwap lateEvents) = 1 \<and>
   mPreRotationLatency afterCalm = 1 \<and>
   mPreRotationLatency afterLate = kPreRotationLatency \<and>
   (\<exists>evs. runFrames demoStart (replicate 29 softFrame @ calmFrame # []) = Inr (evs, afterCalm) \<and>
      filter isSwap (concat evs) = [])"
proof -
  have seed: "mPreRotationLatency demoStart = kPreRotationLatency"
    and fire: "\<not> mFireRecreateSwapchain demoStart"
    by (simp_all add: demoStart_def kPreRotationLatency_def)
  have calm: "queuePresentResult calmFrame = VK_SUCCESS"
    by (simp add: calmFrame_def demoFrame_def)
  have sub: "queuePresentResult softFrame = VK_SUBOPTIMAL_KHR"
    and rot: "\<not> differsBy180 (currentTransform (rotationCaps softFrame)) (mPreTransform demoStart)"
    by (simp_all add: softFrame_def demoFrame_def demoCaps_def demoStart_def differsBy180_def)
  have sig: "\<forall>r \<in> set (replicate 29 softFrame @ [] @ [softFrame]).
      queuePresentResult r = VK_SUBOPTIMAL_KHR \<and>
      \<not> differsBy180 (currentTransform (rotationCaps r)) (mPreTransform demoStart)"
    using sub rot by simp
  have len: "length (replicate 29 softFrame) + length ([] :: frame_reply list) = 29"
    by simp
  obtain evs where
    run: "runFrames demoStart (replicate 29 softFrame @ calmFrame # []) = Inr (evs, afterCalm)"
    using interrupted_run_demo by blast
  have one: "mPreRotationLatency afterCalm = 1"
    by (simp add: afterCalm_def countdownEnd_def)
  show ?thesis
    using seed fire calm sub one run late_swap_demo
      countdown_survives_successful_frame [OF seed fire sig calm len run late_swap_demo]
    by blast
qed

text \<open>
  Claim C10 as stated does not hold: a frame whose present answers success does reset
  the counter when a resize notification is pending. After one soft frame the counter
  stands at 29; the resize to 800 by 600 sets the flag; the next frame presents with
  success, swaps, and leaves the counter at 30.
\<close>

theorem successful_frame_resets_counter_counterexample:
  "drawFrame demoStart softFrame =
     Inr ([CreatedImageView 0 102, CreatedFramebuffer 0 103,
           PushedConstants 0 (demoPush IDENTITY)], afterSoft) \<and>
   resizePending = afterSoft\<lparr>mFireRecreateSwapchain := True\<rparr> \<and>
   mPreRotationLatency resizePending = 29 \<and>
   queuePresentResult calmFrame = VK_SUCCESS \<and>
   drawFrame resizePending calmFrame = Inr (countdownEvents, afterResizeSwap) \<and>
   length (filter isSwap countdownEvents) = 1 \<and>
   mPreRotationLatency afterResizeSwap = 30"
  by (simp add: softFrame_def calmFrame_def afterSoft_def resizePending_def updateSurface_def
      countdownEvents_def afterResizeSwap_def afterCountdown_def frame_defs demo_defs)

section \<open>Aborts\<close>

text \<open>
  A frame that completes has seen every call it made succeed, and, unless a resize was
  pending, a present result of success or suboptimal.
\<close>

lemma completed_frame_calls:
  assumes "drawFrame s r = Inr (ev, s')"
  shows "waitForFencesResult r = VK_SUCCESS"
    and "resetFencesResult r = VK_SUCCESS"
    and "acquireResult r = VK_SUCCESS"
    and "acquiredImageIndex r < length (mFramebuffers s)"
    and "mFramebuffers s ! acquiredImageIndex r = VK_NULL_HANDLE \<Longrightarrow>
           createImageViewResult r = VK_SUCCESS \<and> createFramebufferResult r = VK_SUCCESS"
    and "beginCommandBufferResult r = VK_SUCCESS"
    and "endCommandBufferResult r = VK_SUCCESS"
    and "queueSubmitResult r = VK_SUCCESS"
    and "queuePresentResult r = VK_SUBOPTIMAL_KHR \<or> mFireRecreateSwapchain s \<Longrightarrow>
           capsResult (rotationCaps r) = VK_SUCCESS"
    and "\<not> mFireRecreateSwapchain s \<Longrightarrow>
           queuePresentResult r = VK_SUCCESS \<or> queuePresentResult r = VK_SUBOPTIMAL_KHR"
proof -
  from assms obtain ev1 s1 ev2 s2 ev3 s3 where
    rp: "renderAndPresent s r = Inr (ev1, s1, queuePresentResult r)" and
    rc: "retireCheck s1 = (ev2, s2)" and
    sc: "swapCheck s2 (queuePresentResult r) r = Inr (ev3, s3)"
    by (rule drawFrame_Inr)
  note f1 = renderAndPresent_fields [OF rp]
  note f2 = retireCheck_fields [OF rc]
  have fire2: "mFireRecreateSwapchain s2 = mFireRecreateSwapchain s"
    using f1(3) f2(4) by simp
  show "waitForFencesResult r = VK_SUCCESS"
    and "resetFencesResult r = VK_SUCCESS"
    and "acquireResult r = VK_SUCCESS"
    and "acquiredImageIndex r < length (mFramebuffers s)"
    and "queueSubmitResult r = VK_SUCCESS"
    using rp
    by (auto simp: renderAndPresent_def Let_def split: if_splits sum.splits prod.splits)
  show "beginCommandBufferResult r = VK_SUCCESS"
    and "endCommandBufferResult r = VK_SUCCESS"
    using rp
    by (auto simp: renderAndPresent_def recordCommandBuffer_def Let_def
        split: if_splits sum.splits prod.splits)
  show "createImageViewResult r = VK_SUCCESS \<and> createFramebufferResult r = VK_SUCCESS"
    if "mFramebuffers s ! acquiredImageIndex r = VK_NULL_HANDLE"
    using rp that
    by (auto simp: renderAndPresent_def createFramebuffer_def Let_def
        split: if_splits sum.splits prod.splits)
  show "capsResult (rotationCaps r) = VK_SUCCESS"
    if "queuePresentResult r = VK_SUBOPTIMAL_KHR \<or> mFireRecreateSwapchain s"
    using sc that fire2
    by (auto simp: swapCheck_def is180Rotation_def split: if_splits)
  show "queuePresentResult r = VK_SUCCESS \<or> queuePresentResult r = VK_SUBOPTIMAL_KHR"
    if "\<not> mFireRecreateSwapchain s"
    using sc that fire2
    by (auto simp: swapCheck_def split: if_splits)
qed

text \<open>A frame that swaps has seen the four calls of \<^verbatim>\<open>createSwapchain\<close> succeed.\<close>

lemma swapping_frame_calls:
  assumes run: "drawFrame s r = Inr (ev, s')" and swapped: "filter isSwap ev \<noteq> []"
  shows "capsResult (surfaceCaps (recreateReply r)) = VK_SUCCESS \<and>
         createSwapchainResult (recreateReply r) = VK_SUCCESS \<and>
         imageCountResult (recreateReply r) = VK_SUCCESS \<and>
         imagesResult (recreateReply r) = VK_SUCCESS"
proof -
  from run obtain ev1 s1 ev2 s2 ev3 s3 where
    rp: "renderAndPresent s r = Inr (ev1, s1, queuePresentResult r)" and
    rc: "retireCheck s1 = (ev2, s2)" and
    sc: "swapCheck s2 (queuePresentResult r) r = Inr (ev3, s3)" and
    ev: "ev = ev1 @ ev2 @ ev3"
    by (rule drawFrame_Inr)
  have "filter isSwap ev3 \<noteq> []"
    using swapped ev renderAndPresent_Inr(2) [OF rp] retireCheck_fields(1) [OF rc] by simp
  then obtain c where
    "recreateSwapchain (s2\<lparr>mPreRotationLatency := c\<rparr>) (recreateReply r) = Inr (ev3, s3)"
    using swapCheck_with_swap [OF sc] by blast
  then show ?thesis
    by (auto simp: recreateSwapchain_def createSwapchain_def Let_def split: if_splits)
qed

text \<open>The suboptimal answer of present is never what aborts a frame.\<close>

lemma createSwapchain_Inl:
  assumes "createSwapchain s old r = Inl e"
  shows "e \<noteq> AssertFailed QueuePresentKHR"
  using assms by (auto simp: createSwapchain_def Let_def split: if_splits)

lemma renderAndPresent_Inl:
  assumes "renderAndPresent s r = Inl e"
  shows "e \<noteq> AssertFailed QueuePresentKHR"
proof -
  have fb: "x \<noteq> AssertFailed QueuePresentKHR"
    if "createFramebuffer s i r = Inl x" for i x
    using that by (auto simp: createFramebuffer_def Let_def split: if_splits)
  have rec: "x \<noteq> AssertFailed QueuePresentKHR"
    if "recordCommandBuffer t f i r = Inl x" for t f i x
    using that by (auto simp: recordCommandBuffer_def Let_def split: if_splits)
  show ?thesis
    using assms fb rec
    by (auto simp: renderAndPresent_def Let_def split: if_splits sum.splits prod.splits)
qed

lemma swapCheck_suboptimal_Inl:
  assumes "swapCheck s VK_SUBOPTIMAL_KHR r = Inl e"
  shows "e \<noteq> AssertFailed QueuePresentKHR"
  using assms
  by (auto simp: swapCheck_def is180Rotation_def recreateSwapchain_def Let_def
      split: if_splits dest: createSwapchain_Inl)

lemma suboptimal_present_is_not_fatal:
  assumes sub: "queuePresentResult r = VK_SUBOPTIMAL_KHR"
  shows "drawFrame s r \<noteq> Inl (AssertFailed QueuePresentKHR)"
proof
  assume ab: "drawFrame s r = Inl (AssertFailed QueuePresentKHR)"
  show False
  proof (cases "renderAndPresent s r")
    case (Inl e)
    then show ?thesis
      using ab renderAndPresent_Inl [OF Inl] by (simp add: drawFrame_def)
  next
    case (Inr p)
    obtain ev1 s1 ret where p: "p = (ev1, s1, ret)"
      by (cases p) auto
    have ret: "ret = VK_SUBOPTIMAL_KHR"
      using Inr p renderAndPresent_Inr(1) sub by simp
    obtain ev2 s2 where rc: "retireCheck s1 = (ev2, s2)"
      by (cases "retireCheck s1") auto
    have "swapCheck s2 VK_SUBOPTIMAL_KHR r = Inl (AssertFailed QueuePresentKHR)"
      using ab Inr p ret rc by (simp add: drawFrame_def split: sum.splits prod.splits)
    then show ?thesis
      using swapCheck_suboptimal_Inl by blast
  qed
qed

text \<open>
  A frame completes when every call the device answers succeeds, present answers
  success or suboptimal, the acquired index is in range, the three vectors of the
  current swapchain have one length, and a texture is loaded.
\<close>

lemma createSwapchain_completes:
  assumes "capsResult (surfaceCaps r) = VK_SUCCESS"
    and "createSwapchainResult r = VK_SUCCESS"
    and "imageCountResult r = VK_SUCCESS"
    and "imagesResult r = VK_SUCCESS"
  shows "\<exists>ev s'. createSwapchain s old r = Inr (ev, s')"
  using assms by (simp add: createSwapchain_def Let_def)

lemma swapCheck_completes:
  assumes "ret = VK_SUCCESS \<or> ret = VK_SUBOPTIMAL_KHR"
    and "capsResult (rotationCaps r) = VK_SUCCESS"
    and "capsResult (surfaceCaps (recreateReply r)) = VK_SUCCESS"
    and "createSwapchainResult (recreateReply r) = VK_SUCCESS"
    and "imageCountResult (recreateReply r) = VK_SUCCESS"
    and "imagesResult (recreateReply r) = VK_SUCCESS"
  shows "\<exists>ev s'. swapCheck s ret r = Inr (ev, s')"
proof -
  have re: "\<exists>ev s'. recreateSwapchain t (recreateReply r) = Inr (ev, s')" for t
    unfolding recreateSwapchain_def Let_def
    using createSwapchain_completes [OF assms(3-6)] by blast
  show ?thesis
    using assms(1,2) re [of s] re [of "s\<lparr>mPreRotationLatency := mPreRotationLatency s - 1\<rparr>"]
    by (auto simp: swapCheck_def is180Rotation_def Let_def)
qed

lemma renderAndPresent_completes:
  assumes "waitForFencesResult r = VK_SUCCESS"
    and "resetFencesResult r = VK_SUCCESS"
    and "acquireResult r = VK_SUCCESS"
    and "createImageViewResult r = VK_SUCCESS"
    and "createFramebufferResult r = VK_SUCCESS"
    and "beginCommandBufferResult r = VK_SUCCESS"
    and "endCommandBufferResult r = VK_SUCCESS"
    and "queueSubmitResult r = VK_SUCCESS"
    and "acquiredImageIndex r < length (mFramebuffers s)"
    and "length (mImages s) = length (mFramebuffers s)"
    and "length (mImageViews s) = length (mFramebuffers s)"
    and "mTextures s \<noteq> []"
  shows "\<exists>ev s1. renderAndPresent s r = Inr (ev, s1, queuePresentResult r)"
  using assms
  by (simp add: renderAndPresent_def createFramebuffer_def recordCommandBuffer_def Let_def)

lemma drawFrame_completes:
  assumes "waitForFencesResult r = VK_SUCCESS"
    and "resetFencesResult r = VK_SUCCESS"
    and "acquireResult r = VK_SUCCESS"
    and "createImageViewResult r = VK_SUCCESS"
    and "createFramebufferResult r = VK_SUCCESS"
    and "beginCommandBufferResult r = VK_SUCCESS"
    and "endCommandBufferResult r = VK_SUCCESS"
    and "queueSubmitResult r = VK_SUCCESS"
    and "acquiredImageIndex r < length (mFramebuffers s)"
    and "length (mImages s) = length (mFramebuffers s)"
    and "length (mImageViews s) = length (mFramebuffers s)"
    and "mTextures s \<noteq> []"
    and "queuePresentResult r = VK_SUCCESS \<or> queuePresentResult r = VK_SUBOPTIMAL_KHR"
    and "capsResult (rotationCaps r) = VK_SUCCESS"
    and "capsResult (surfaceCaps (recreateReply r)) = VK_SUCCESS"
    and "createSwapchainResult (recreateReply r) = VK_SUCCESS"
    and "imageCountResult (recreateReply r) = VK_SUCCESS"
    and "imagesResult (recreateReply r) = VK_SUCCESS"
  shows "\<exists>ev s'. drawFrame s r = Inr (ev, s')"
proof -
  obtain ev1 s1 where rp: "renderAndPresent s r = Inr (ev1, s1, queuePresentResult r)"
    using renderAndPresent_completes [OF assms(1-12)] by blast
  obtain ev2 s2 where rc: "retireCheck s1 = (ev2, s2)"
    by (cases "retireCheck s1") auto
  obtain ev3 s3 where sc: "swapCheck s2 (queuePresentResult r) r = Inr (ev3, s3)"
    using swapCheck_completes [OF assms(13-18)] by blast
  show ?thesis
    using rp rc sc by (simp add: drawFrame_def)
qed

text \<open>
  Claim C8, the case in which the code departs from it. A resize notification is
  pending and present answers \<^verbatim>\<open>VK_ERROR_DEVICE_LOST\<close>: the branch that holds
  \<^verbatim>\<open>ASSERT(ret == VK_SUCCESS)\<close> is not taken, the frame swaps and completes.
\<close>

theorem present_error_with_pending_resize_completes:
  "mFireRecreateSwapchain (updateSurface demoStart 800 600) \<and>
   queuePresentResult lostFrame = VK_ERROR_DEVICE_LOST \<and>
   drawFrame (updateSurface demoStart 800 600) lostFrame = Inr (lostEvents, afterLost)"
  by (simp add: updateSurface_def lostFrame_def lostEvents_def afterLost_def afterFlip_def
      frame_defs demo_defs)

theorem present_error_with_pending_resize_completes_witness:
  "drawFrame (updateSurface demoStart 800 600) lostFrame \<noteq> Inl (AssertFailed QueuePresentKHR) \<and>
   length (filter isSwap lostEvents) = 1"
  using present_error_with_pending_resize_completes by (simp add: lostEvents_def)

section \<open>Logical and physical extent\<close>

lemma createSwapchain_records:
  assumes "createSwapchain s old r = Inr (ev, s')"
  shows "mSurfaceWidth s' = currentExtentWidth (surfaceCaps r)"
    and "mSurfaceHeight s' = currentExtentHeight (surfaceCaps r)"
    and "mPreTransform s' = currentTransform (surfaceCaps r)"
  using assms
  by (auto simp: createSwapchain_def Let_def split: if_splits)

text \<open>
  Claim C5. When its four device calls succeed, \<^verbatim>\<open>createSwapchain\<close> records the probed
  extent \<open>(w, h)\<close> as the logical surface size, and both records as image size and
  passes to \<^verbatim>\<open>CreateSwapchainKHR\<close> as image extent \<open>(h, w)\<close> when the probed transform
  is Rotate90 or Rotate270 and \<open>(w, h)\<close> otherwise.
\<close>

theorem createSwapchain_swaps_extent_on_quarter_turn:
  assumes "capsResult (surfaceCaps r) = VK_SUCCESS"
    and "createSwapchainResult r = VK_SUCCESS"
    and "imageCountResult r = VK_SUCCESS"
    and "imagesResult r = VK_SUCCESS"
  shows "\<exists>s'. createSwapchain s old r =
           Inr ([CreatedSwapchain
                  \<lparr>imageExtentWidth = mImageWidth s', imageExtentHeight = mImageHeight s',
                   preTransform = currentTransform (surfaceCaps r), oldSwapchain = old\<rparr>
                  (createdSwapchain r)], s') \<and>
           mSurfaceWidth s' = currentExtentWidth (surfaceCaps r) \<and>
           mSurfaceHeight s' = currentExtentHeight (surfaceCaps r) \<and>
           mPreTransform s' = currentTransform (surfaceCaps r) \<and>
           (mImageWidth s', mImageHeight s') =
             (if currentTransform (surfaceCaps r) = ROTATE_90 \<or>
                 currentTransform (surfaceCaps r) = ROTATE_270
              then (currentExtentHeight (surfaceCaps r), currentExtentWidth (surfaceCaps r))
              else (currentExtentWidth (surfaceCaps r), currentExtentHeight (surfaceCaps r)))"
  using assms by (simp add: createSwapchain_def Let_def)

theorem createSwapchain_swaps_extent_on_quarter_turn_witness:
  "capsResult (surfaceCaps (demoSwapchain ROTATE_90 100)) = VK_SUCCESS \<and>
   currentExtentWidth (surfaceCaps (demoSwapchain ROTATE_90 100)) = 1080 \<and>
   currentExtentHeight (surfaceCaps (demoSwapchain ROTATE_90 100)) = 1920 \<and>
   (\<exists>s'. createSwapchain defaultRenderer VK_NULL_HANDLE (demoSwapchain ROTATE_90 100) =
           Inr ([CreatedSwapchain
                  \<lparr>imageExtentWidth = 1920, imageExtentHeight = 1080,
                   preTransform = ROTATE_90, oldSwapchain = VK_NULL_HANDLE\<rparr> 100], s') \<and>
           mSurfaceWidth s' = 1080 \<and> mSurfaceHeight s' = 1920 \<and>
           mImageWidth s' = 1920 \<and> mImageHeight s' = 1080)"
proof -
  have ok: "capsResult (surfaceCaps (demoSwapchain ROTATE_90 100)) = VK_SUCCESS"
    "createSwapchainResult (demoSwapchain ROTATE_90 100) = VK_SUCCESS"
    "imageCountResult (demoSwapchain ROTATE_90 100) = VK_SUCCESS"
    "imagesResult (demoSwapchain ROTATE_90 100) = VK_SUCCESS"
    by (simp_all add: demoSwapchain_def demoCaps_def)
  from createSwapchain_swaps_extent_on_quarter_turn
    [OF ok, of defaultRenderer VK_NULL_HANDLE]
  show ?thesis
    by (auto simp: demoSwapchain_def demoCaps_def)
qed

section \<open>The pre-rotation matrix\<close>









section \<open>The scale factors\<close>





section \<open>Resize notifications\<close>

lemma renderAndPresent_surface:
  assumes "renderAndPresent s r = Inr (ev, s1, ret)"
  shows "mSurfaceWidth s1 = mSurfaceWidth s" and "mSurfaceHeight s1 = mSurfaceHeight s"
  using assms
  by (auto simp: renderAndPresent_def createFramebuffer_def Let_def
      split: if_splits sum.splits prod.splits)

lemma retireCheck_surface:
  assumes "retireCheck s = (ev, s')"
  shows "mSurfaceWidth s' = mSurfaceWidth s" and "mSurfaceHeight s' = mSurfaceHeight s"
  using assms
  by (auto simp: retireCheck_def destroyOldSwapchain_def split: if_splits)

text \<open>The recorded surface size changes only when a swapchain is created.\<close>

lemma frame_surface_size:
  assumes run: "drawFrame s r = Inr (ev, s')"
  shows "(mSurfaceWidth s', mSurfaceHeight s') =
    (if filter isSwap ev = [] then (mSurfaceWidth s, mSurfaceHeight s)
     else (currentExtentWidth (surfaceCaps (recreateReply r)),
           currentExtentHeight (surfaceCaps (recreateReply r))))"
proof -
  from run obtain ev1 s1 ev2 s2 ev3 s3 where
    rp: "renderAndPresent s r = Inr (ev1, s1, queuePresentResult r)" and
    rc: "retireCheck s1 = (ev2, s2)" and
    sc: "swapCheck s2 (queuePresentResult r) r = Inr (ev3, s3)" and
    ev: "ev = ev1 @ ev2 @ ev3" and
    s': "s' = s3\<lparr>mFrameCount := mFrameCount s3 + 1\<rparr>"
    by (rule drawFrame_Inr)
  have before: "mSurfaceWidth s2 = mSurfaceWidth s" "mSurfaceHeight s2 = mSurfaceHeight s"
    using renderAndPresent_surface [OF rp] retireCheck_surface [OF rc] by simp_all
  have sw: "filter isSwap ev = filter isSwap ev3"
    using ev renderAndPresent_Inr(2) [OF rp] retireCheck_fields(1) [OF rc] by simp
  show ?thesis
  proof (cases "filter isSwap ev3 = []")
    case True
    from swapCheck_without_swap(2) [OF sc True]
    show ?thesis
      using True sw s' before by auto
  next
    case False
    then obtain c where
      "recreateSwapchain (s2\<lparr>mPreRotationLatency := c\<rparr>) (recreateReply r) = Inr (ev3, s3)"
      using swapCheck_with_swap [OF sc] by blast
    then obtain t old where "createSwapchain t old (recreateReply r) = Inr (ev3, s3)"
      unfolding recreateSwapchain_def Let_def by blast
    from createSwapchain_records(1,2) [OF this]
    show ?thesis
      using False sw s' by simp
  qed
qed

text \<open>
  Claim C9. \<^verbatim>\<open>updateSurface (w, h)\<close> sets the recreate flag exactly when \<open>(w, h)\<close>
  differs from the recorded surface size and changes no other member; it makes no device
  call (the model gives it no device answers and no events). The engine's
  \<^verbatim>\<open>onWindowResized\<close> does nothing more. The recorded size is the extent probed by the
  most recent \<^verbatim>\<open>createSwapchain\<close>: a frame leaves it alone unless it swaps.
\<close>

theorem updateSurface_only_sets_flag:
  "updateSurface s w h =
     (if (w, h) \<noteq> (mSurfaceWidth s, mSurfaceHeight s)
      then s\<lparr>mFireRecreateSwapchain := True\<rparr> else s) \<and>
   onWindowResized e w h =
     e\<lparr>mRenderer := (if mIsRendererReady e then updateSurface (mRenderer e) w h
                      else mRenderer e)\<rparr> \<and>
   (createSwapchain s0 old c = Inr (ev0, s) \<longrightarrow>
      (mSurfaceWidth s, mSurfaceHeight s) =
        (currentExtentWidth (surfaceCaps c), currentExtentHeight (surfaceCaps c))) \<and>
   (drawFrame s r = Inr (ev, s') \<longrightarrow>
      (mSurfaceWidth s', mSurfaceHeight s') =
        (if filter isSwap ev = [] then (mSurfaceWidth s, mSurfaceHeight s)
         else (currentExtentWidth (surfaceCaps (recreateReply r)),
               currentExtentHeight (surfaceCaps (recreateReply r)))))"
proof -
  have "updateSurface s w h =
     (if (w, h) \<noteq> (mSurfaceWidth s, mSurfaceHeight s)
      then s\<lparr>mFireRecreateSwapchain := True\<rparr> else s)"
    by (auto simp: updateSurface_def)
  moreover have "onWindowResized e w h =
     e\<lparr>mRenderer := (if mIsRendererReady e then updateSurface (mRenderer e) w h
                      else mRenderer e)\<rparr>"
    by (simp add: onWindowResized_def)
  ultimately show ?thesis
    using createSwapchain_records(1,2) [of s0 old c ev0 s] frame_surface_size [of s r ev s']
    by blast
qed

theorem updateSurface_only_sets_flag_witness:
  "updateSurface demoStart 800 600 = demoStart\<lparr>mFireRecreateSwapchain := True\<rparr> \<and>
   updateSurface demoStart 1080 1920 = demoStart \<and>
   onWindowResized \<lparr>mRenderer = demoStart, mIsRendererReady = True\<rparr> 800 600 =
     \<lparr>mRenderer = demoStart\<lparr>mFireRecreateSwapchain := True\<rparr>, mIsRendererReady = True\<rparr> \<and>
   onWindowResized \<lparr>mRenderer = demoStart, mIsRendererReady = False\<rparr> 800 600 =
     \<lparr>mRenderer = demoStart, mIsRendererReady = False\<rparr> \<and>
   drawFrame demoStart flipFrame = Inr (flipEvents, afterFlip) \<and>
   (mSurfaceWidth afterFlip, mSurfaceHeight afterFlip) = (1080, 1920)"
proof -
  note a = updateSurface_only_sets_flag
    [of demoStart 800 600 "\<lparr>mRenderer = demoStart, mIsRendererReady = True\<rparr>"
      defaultRenderer VK_NULL_HANDLE "demoSwapchain IDENTITY 100" "[]" flipFrame
      flipEvents afterFlip]
  note b = updateSurface_only_sets_flag
    [of demoStart 1080 1920 "\<lparr>mRenderer = demoStart, mIsRendererReady = False\<rparr>"
      defaultRenderer VK_NULL_HANDLE "demoSwapchain IDENTITY 100" "[]" flipFrame
      flipEvents afterFlip]
  have size: "(mSurfaceWidth afterFlip, mSurfaceHeight afterFlip) = (1080, 1920)"
    using a flipFrame_run
    by (simp add: flipEvents_def flipFrame_def demoFrame_def demoSwapchain_def demoCaps_def)
  have "updateSurface demoStart 800 600 = demoStart\<lparr>mFireRecreateSwapchain := True\<rparr>"
    using a by (simp add: demoStart_def)
  moreover have "updateSurface demoStart 1080 1920 = demoStart"
    using b by (simp add: demoStart_def)
  moreover have
    "onWindowResized \<lparr>mRenderer = demoStart, mIsRendererReady = True\<rparr> 800 600 =
       \<lparr>mRenderer = demoStart\<lparr>mFireRecreateSwapchain := True\<rparr>, mIsRendererReady = True\<rparr>"
    using a by (simp add: demoStart_def)
  moreover have
    "onWindowResized \<lparr>mRenderer = demoStart, mIsRendererReady = False\<rparr> 800 600 =
       \<lparr>mRenderer = demoStart, mIsRendererReady = False\<rparr>"
    by (simp add: onWindowResized_def)
  ultimately show ?thesis
    using flipFrame_run size by simp
qed

end
